theory Spec2Isabelle
  imports Complex_Main "HOL-Library.Word"
begin

section \<open>The robot design viewer: examples/viewer/main.cpp\<close>

text \<open>
  The program loads a graph grammar, rewrites a one-node robot graph by a sequence of rule
  indices, builds the robot, optionally optimises a trajectory over a number of episodes
  while growing a replay buffer, and optionally replays the recorded control plan in a
  viewer.

  \<^verbatim>\<open>main\<close> is the one function in these sources. The graph library, the simulation,
  the optimizer, the value estimator and the objective are declared in the headers of
  robot_design, which are not among them; with the random generator and the clock they are
  parameters of the model (the records \<open>graph_lib\<close> and \<open>collaborators\<close>), each a
  function of its arguments.
  \<^verbatim>\<open>Scalar\<close> is a type variable with \<open>0\<close>, \<open>+\<close> and \<open>*\<close> and no law assumed of them, so
  that what is proved holds of floating-point arithmetic as of any other.

  Every call \<^verbatim>\<open>main\<close> makes on the graph library, the simulation, the optimizer, the
  value estimator and the objective is logged, in program order, in a trace of events.
  Progress messages on standard output, the viewer's drawing calls and the image file of
  \<^verbatim>\<open>--save_image\<close> (lines 207 to 228, which only read the simulation) are left out.
\<close>

subsection \<open>Command line and events\<close>

text \<open>The parsed command line (lines 22 to 40); \<^verbatim>\<open>unsigned int\<close> is a 32-bit word.\<close>

record args =
  graph_file_arg :: string
  rule_sequence_arg :: "32 word list"
  seed_flag :: "32 word"
  jobs_flag :: "32 word"
  episodes_flag :: "32 word"
  optim_flag :: bool
  render_flag :: bool
  save_image_flag :: string

datatype 'a event =
    LoadGraphs string
  | Stderr string
  | CreateRuleFromGraph
  | FindMatches nat
  | ApplyRule nat
  | BuildRobot
  | NewSimulation
  | NewOptimizer "32 word"
  | Update
  | Advance int
  | GetObservation nat
  | SetJointTargetPositions "'a list"
  | Step
  | Objective
  | SaveState
  | RestoreState
  | EstimateValue "'a list"
  | Train "'a list list" "'a list"

subsection \<open>Collaborators\<close>

text \<open>
  The graph library (robot_design/graph.h). \<open>rule_lhs\<close> is the field \<^verbatim>\<open>lhs_\<close> of a rule;
  \<open>seed_graph\<close> is the graph literal of lines 85 to 88: name "robot", the single node
  "robot", no edges, no subgraphs.
\<close>

record ('g, 'r, 'm) graph_lib =
  loadGraphs :: "string \<Rightarrow> 'g list"
  createRuleFromGraph :: "'g \<Rightarrow> 'r"
  rule_lhs :: "'r \<Rightarrow> 'g"
  findMatches :: "'g \<Rightarrow> 'g \<Rightarrow> 'm list"
  applyRule :: "'r \<Rightarrow> 'g \<Rightarrow> 'm \<Rightarrow> 'g"
  seed_graph :: 'g

text \<open>
  Everything else. \<open>'w\<close> is the dynamical state of a simulation, \<open>'opt\<close> the state of an
  \<^verbatim>\<open>MPPIOptimizer\<close>, \<open>'ve\<close> that of the value estimator, \<open>'gen\<close> that of \<^verbatim>\<open>std::mt19937\<close>.
  \<^item> \<open>make_sim\<close>: the world of a fresh simulation holding the floor and the robot built
    from the graph, placed on the ground (lines 100 to 128);
  \<^item> \<open>MPPIOptimizer\<close>: the constructor of lines 160 to 166, as a function of the arguments
    that vary (the robot behind \<^verbatim>\<open>make_sim_fn\<close>, \<^verbatim>\<open>dof_count\<close>, \<^verbatim>\<open>thread_count\<close>, the seed, the
    value estimator);
  \<^item> matrices are lists of columns; \<open>opt_input_sequence\<close> is the optimizer's field
    \<^verbatim>\<open>input_sequence_\<close>;
  \<^item> \<open>discount_factor\<close>: the \<^verbatim>\<open>Scalar\<close> of the literal 0.99 (line 66);
  \<^item> \<open>uninitialized\<close>: what an entry of a matrix or vector that was sized and not yet
    written holds;
  \<^item> \<open>frame_steps\<close>: for each pass of the viewer's outer loop before \<^verbatim>\<open>shouldClose()\<close>
    turns true, how many passes of the inner loop the clock makes due.
\<close>

record ('a, 'g, 'w, 'opt, 've, 'gen) collaborators =
  make_sim :: "'g \<Rightarrow> 'w"
  getRobotDofCount :: "'w \<Rightarrow> nat"
  hardware_concurrency :: "32 word"
  sim_setJointTargetPositions :: "'w \<Rightarrow> 'a list \<Rightarrow> 'w"
  sim_step :: "'w \<Rightarrow> 'w"
  objective_fn :: "'w \<Rightarrow> 'a"
  mt19937 :: "32 word \<Rightarrow> 'gen"
  mt19937_next :: "'gen \<Rightarrow> 32 word \<times> 'gen"
  MPPIOptimizer :: "'g \<Rightarrow> nat \<Rightarrow> 32 word \<Rightarrow> 32 word \<Rightarrow> 've \<Rightarrow> 'opt"
  update :: "'opt \<Rightarrow> 'opt"
  advance :: "'opt \<Rightarrow> int \<Rightarrow> 'opt"
  opt_input_sequence :: "'opt \<Rightarrow> 'a list list"
  NullValueEstimator :: 've
  getObservationSize :: "'ve \<Rightarrow> nat"
  getObservation :: "'ve \<Rightarrow> 'w \<Rightarrow> 'a list"
  estimateValue :: "'ve \<Rightarrow> 'a list \<Rightarrow> 'a"
  train :: "'ve \<Rightarrow> 'a list list \<Rightarrow> 'a list \<Rightarrow> 've"
  discount_factor :: 'a
  uninitialized :: 'a
  frame_steps :: "nat list"

subsection \<open>The simulation's checkpoint\<close>

text \<open>
  Modelled from the spec: \<^verbatim>\<open>Simulation::saveState\<close> and \<^verbatim>\<open>Simulation::restoreState\<close>
  (robot_design/sim.h). The spec, section 3: "saveState captures current dynamics state; a
  subsequent restoreState must return exactly to that captured state, discarding all
  intervening steps. At most one outstanding saved state per instance is required".
  A simulation is its present world and one slot for the saved one. The spec does not say
  what \<^verbatim>\<open>restoreState\<close> does before any \<^verbatim>\<open>saveState\<close>; here it leaves the world as it is,
  and \<^verbatim>\<open>main\<close> never does that.
\<close>

record 'w simulation =
  world :: 'w
  saved_state :: "'w option"

definition saveState :: "'w simulation \<Rightarrow> 'w simulation" where
  "saveState sim = sim\<lparr>saved_state := Some (world sim)\<rparr>"

definition restoreState :: "'w simulation \<Rightarrow> 'w simulation" where
  "restoreState sim = (case saved_state sim of None \<Rightarrow> sim | Some w \<Rightarrow> sim\<lparr>world := w\<rparr>)"

definition setJointTargetPositions ::
  "('a, 'g, 'w, 'opt, 've, 'gen) collaborators \<Rightarrow> 'w simulation \<Rightarrow> 'a list \<Rightarrow> 'w simulation" where
  "setJointTargetPositions E sim u = sim\<lparr>world := sim_setJointTargetPositions E (world sim) u\<rparr>"

definition step ::
  "('a, 'g, 'w, 'opt, 've, 'gen) collaborators \<Rightarrow> 'w simulation \<Rightarrow> 'w simulation" where
  "step E sim = sim\<lparr>world := sim_step E (world sim)\<rparr>"

subsection \<open>Program state\<close>

text \<open>The local variables of \<^verbatim>\<open>main\<close> that live from line 136 on, and the trace.\<close>

record ('a, 'g, 'w, 've, 'gen) prog =
  robot_graph :: 'g
  generator :: 'gen
  main_sim :: "'w simulation"
  dof_count :: nat
  thread_count :: "32 word"
  value_estimator :: 've
  episode_len :: nat
  episode_count :: int
  input_sequence :: "'a list list"
  obs :: "'a list list"
  rewards :: "'a list"
  returns :: "'a list"
  replay_obs :: "'a list list"
  replay_returns :: "'a list"
  trace :: "'a event list"

definition emit :: "'a event \<Rightarrow> ('a, 'g, 'w, 've, 'gen) prog \<Rightarrow> ('a, 'g, 'w, 've, 'gen) prog" where
  "emit e p = p\<lparr>trace := trace p @ [e]\<rparr>"

text \<open>\<^verbatim>\<open>constexpr int interval = 4\<close> (line 64).\<close>

definition interval :: nat where
  "interval = 4"

text \<open>
  The sizes lines 148 to 151 give the four per-episode containers. Every index the episode
  uses is in range where they hold.
\<close>

definition sized :: "('a, 'g, 'w, 've, 'gen) prog \<Rightarrow> bool" where
  "sized p \<longleftrightarrow>
     length (input_sequence p) = episode_len p \<and> length (obs p) = episode_len p + 1 \<and>
     length (rewards p) = episode_len p \<and> length (returns p) = episode_len p + 1"

subsection \<open>Eigen's resizing and block assignment\<close>

text \<open>
  \<^verbatim>\<open>conservativeResize\<close> keeps the leading entries and leaves the new ones uninitialised;
  \<^verbatim>\<open>xs.tail(k) = ys\<close> and \<^verbatim>\<open>M.rightCols(k) = N\<close> overwrite the last \<open>k\<close> entries (Eigen requires
  \<open>ys\<close> to have \<open>k\<close> of them); \<^verbatim>\<open>head(k)\<close> and \<^verbatim>\<open>leftCols(k)\<close> are \<open>take k\<close>.
\<close>

definition conservativeResize :: "'x \<Rightarrow> nat \<Rightarrow> 'x list \<Rightarrow> 'x list" where
  "conservativeResize fill n xs = take n xs @ replicate (n - length xs) fill"

definition assign_tail :: "nat \<Rightarrow> 'x list \<Rightarrow> 'x list \<Rightarrow> 'x list" where
  "assign_tail k ys xs = take (length xs - k) xs @ ys"

subsection \<open>Lines 71 to 98: rules and the robot graph\<close>

definition convert_rules ::
  "('g, 'r, 'm) graph_lib \<Rightarrow> 'g list \<Rightarrow> 'a event list \<Rightarrow> 'r list \<times> 'a event list" where
  "convert_rules G rule_graphs tr =
     fold (\<lambda>rule_graph (rules, tr). (rules @ [createRuleFromGraph G rule_graph], tr @ [CreateRuleFromGraph]))
       rule_graphs ([], tr)"

fun rewrite_step ::
  "('g, 'r, 'm) graph_lib \<Rightarrow> 'r list \<Rightarrow> 32 word \<Rightarrow> 'g \<times> 'a event list \<Rightarrow> 'g \<times> 'a event list" where
  "rewrite_step G rules rule_idx (g, tr) =
     (if unat rule_idx < length rules then
        let rule = rules ! unat rule_idx;
            matches = findMatches G (rule_lhs G rule) g;
            tr1 = tr @ [FindMatches (unat rule_idx)]
        in if matches \<noteq> [] then
             (applyRule G rule g (matches ! 0), tr1 @ [ApplyRule (unat rule_idx)])
           else (g, tr1)
      else (g, tr))"

definition generate_robot_graph ::
  "('g, 'r, 'm) graph_lib \<Rightarrow> 'r list \<Rightarrow> 32 word list \<Rightarrow> 'a event list \<Rightarrow> 'g \<times> 'a event list" where
  "generate_robot_graph G rules rule_sequence tr =
     fold (rewrite_step G rules) rule_sequence (seed_graph G, tr)"

subsection \<open>Lines 100 to 153: robot, main simulation, containers\<close>

definition initialise ::
  "('a::zero, 'g, 'w, 'opt, 've, 'gen) collaborators \<Rightarrow> args \<Rightarrow> 'g \<Rightarrow> 'a event list \<Rightarrow>
     ('a, 'g, 'w, 've, 'gen) prog" where
  "initialise E a g tr =
     (let w0 = make_sim E g;
          dof = getRobotDofCount E w0;
          ve = NullValueEstimator E;
          len = 250
      in \<lparr>robot_graph = g,
          generator = mt19937 E (seed_flag a),
          main_sim = \<lparr>world = w0, saved_state = None\<rparr>,
          dof_count = dof,
          thread_count = (if jobs_flag a = 0 then max (hardware_concurrency E) 1 else jobs_flag a),
          value_estimator = ve,
          episode_len = len,
          episode_count = sint (episodes_flag a),
          input_sequence = replicate len (replicate dof 0),
          obs = replicate (len + 1) (replicate (getObservationSize E ve) (uninitialized E)),
          rewards = replicate len (uninitialized E),
          returns = replicate (len + 1) (uninitialized E),
          replay_obs = [],
          replay_returns = [],
          trace = tr @ [BuildRobot, NewSimulation, NewSimulation]\<rparr>)"

subsection \<open>Lines 156 to 202: one episode\<close>

text \<open>Lines 159 to 166: a fresh optimizer, seeded from the master generator.\<close>

definition new_optimizer ::
  "('a, 'g, 'w, 'opt, 've, 'gen) collaborators \<Rightarrow> ('a, 'g, 'w, 've, 'gen) prog \<Rightarrow>
     'opt \<times> ('a, 'g, 'w, 've, 'gen) prog" where
  "new_optimizer E p =
     (let (opt_seed, gen) = mt19937_next E (generator p);
          p1 = emit (NewOptimizer opt_seed) (p\<lparr>generator := gen\<rparr>)
      in (MPPIOptimizer E (robot_graph p1) (dof_count p1) (thread_count p1) opt_seed (value_estimator p1), p1))"

text \<open>Lines 167 to 169: ten updates before recording.\<close>

definition warm_up ::
  "('a, 'g, 'w, 'opt, 've, 'gen) collaborators \<Rightarrow> 'opt \<times> ('a, 'g, 'w, 've, 'gen) prog \<Rightarrow>
     'opt \<times> ('a, 'g, 'w, 've, 'gen) prog" where
  "warm_up E = fold (\<lambda>i (optimizer, p). (update E optimizer, emit Update p)) [0..<10]"

text \<open>Lines 181 to 183: one physics step of control step \<open>j\<close>.\<close>

definition physics_step ::
  "('a::plus, 'g, 'w, 'opt, 've, 'gen) collaborators \<Rightarrow> nat \<Rightarrow> ('a, 'g, 'w, 've, 'gen) prog \<Rightarrow>
     ('a, 'g, 'w, 've, 'gen) prog" where
  "physics_step E j p =
     (let u = input_sequence p ! j;
          p1 = emit (SetJointTargetPositions u) (p\<lparr>main_sim := setJointTargetPositions E (main_sim p) u\<rparr>);
          p2 = emit Step (p1\<lparr>main_sim := step E (main_sim p1)\<rparr>)
      in emit Objective
           (p2\<lparr>rewards := (rewards p2)[j := rewards p2 ! j + objective_fn E (world (main_sim p2))]\<rparr>))"

text \<open>Lines 174 to 184: control step \<open>j\<close>.\<close>

fun control_step ::
  "('a::{zero,plus}, 'g, 'w, 'opt, 've, 'gen) collaborators \<Rightarrow> nat \<Rightarrow>
     'opt \<times> ('a, 'g, 'w, 've, 'gen) prog \<Rightarrow> 'opt \<times> ('a, 'g, 'w, 've, 'gen) prog" where
  "control_step E j (optimizer, p) =
     (let opt1 = update E optimizer;
          p1 = emit Update p;
          p2 = p1\<lparr>input_sequence := (input_sequence p1)[j := opt_input_sequence E opt1 ! 0]\<rparr>;
          opt2 = advance E opt1 1;
          p3 = emit (Advance 1) p2;
          p4 = emit (GetObservation j)
                 (p3\<lparr>obs := (obs p3)[j := getObservation E (value_estimator p3) (world (main_sim p3))]\<rparr>);
          p5 = p4\<lparr>rewards := (rewards p4)[j := 0]\<rparr>
      in (opt2, fold (\<lambda>i. physics_step E j) [0..<interval] p5))"

text \<open>Lines 172 to 187: the main simulation in lockstep with the optimizer.\<close>

fun lockstep ::
  "('a::{zero,plus}, 'g, 'w, 'opt, 've, 'gen) collaborators \<Rightarrow>
     'opt \<times> ('a, 'g, 'w, 've, 'gen) prog \<Rightarrow> ('a, 'g, 'w, 've, 'gen) prog" where
  "lockstep E (optimizer, p) =
     (let p1 = emit SaveState (p\<lparr>main_sim := saveState (main_sim p)\<rparr>);
          (opt2, p2) = fold (control_step E) [0..<length (input_sequence p1)] (optimizer, p1);
          p3 = emit (GetObservation (episode_len p2))
                 (p2\<lparr>obs := (obs p2)[episode_len p2 :=
                                      getObservation E (value_estimator p2) (world (main_sim p2))]\<rparr>)
      in emit RestoreState (p3\<lparr>main_sim := restoreState (main_sim p3)\<rparr>))"

text \<open>
  Lines 190 to 193: the terminal return from the value estimator (\<^verbatim>\<open>returns.tail<1>()\<close> is
  the last entry), then the returns backwards.
\<close>

definition bootstrap_returns ::
  "('a::{plus,times}, 'g, 'w, 'opt, 've, 'gen) collaborators \<Rightarrow> ('a, 'g, 'w, 've, 'gen) prog \<Rightarrow>
     ('a, 'g, 'w, 've, 'gen) prog" where
  "bootstrap_returns E p =
     (let final_obs = obs p ! episode_len p;
          p1 = emit (EstimateValue final_obs)
                 (p\<lparr>returns := (returns p)[length (returns p) - 1 :=
                                            estimateValue E (value_estimator p) final_obs]\<rparr>)
      in fold (\<lambda>j p. p\<lparr>returns := (returns p)[j := rewards p ! j + discount_factor E * returns p ! (j + 1)]\<rparr>)
           (rev [0..<episode_len p1]) p1)"

text \<open>Lines 194 to 198: the episode's pairs go to the end of the replay buffer.\<close>

definition append_replay ::
  "('a, 'g, 'w, 'opt, 've, 'gen) collaborators \<Rightarrow> ('a, 'g, 'w, 've, 'gen) prog \<Rightarrow>
     ('a, 'g, 'w, 've, 'gen) prog" where
  "append_replay E p =
     (let len = episode_len p;
          column = replicate (getObservationSize E (value_estimator p)) (uninitialized E);
          p1 = p\<lparr>replay_obs := conservativeResize column (length (replay_obs p) + len) (replay_obs p)\<rparr>;
          p2 = p1\<lparr>replay_obs := assign_tail len (take len (obs p1)) (replay_obs p1)\<rparr>;
          p3 = p2\<lparr>replay_returns :=
                    conservativeResize (uninitialized E) (length (replay_returns p2) + len) (replay_returns p2)\<rparr>
      in p3\<lparr>replay_returns := assign_tail len (take len (returns p3)) (replay_returns p3)\<rparr>)"

text \<open>Line 199.\<close>

definition retrain ::
  "('a, 'g, 'w, 'opt, 've, 'gen) collaborators \<Rightarrow> ('a, 'g, 'w, 've, 'gen) prog \<Rightarrow>
     ('a, 'g, 'w, 've, 'gen) prog" where
  "retrain E p =
     emit (Train (replay_obs p) (replay_returns p))
       (p\<lparr>value_estimator := train E (value_estimator p) (replay_obs p) (replay_returns p)\<rparr>)"

text \<open>Lines 159 to 187: the state in which line 190 starts.\<close>

definition replayed ::
  "('a::{zero,plus}, 'g, 'w, 'opt, 've, 'gen) collaborators \<Rightarrow> ('a, 'g, 'w, 've, 'gen) prog \<Rightarrow>
     ('a, 'g, 'w, 've, 'gen) prog" where
  "replayed E p = lockstep E (warm_up E (new_optimizer E p))"

definition run_episode ::
  "('a::{zero,plus,times}, 'g, 'w, 'opt, 've, 'gen) collaborators \<Rightarrow> ('a, 'g, 'w, 've, 'gen) prog \<Rightarrow>
     ('a, 'g, 'w, 've, 'gen) prog" where
  "run_episode E p = retrain E (append_replay E (bootstrap_returns E (replayed E p)))"

text \<open>The episode loop of line 156, run \<open>k\<close> times.\<close>

definition run_episodes ::
  "('a::{zero,plus,times}, 'g, 'w, 'opt, 've, 'gen) collaborators \<Rightarrow> nat \<Rightarrow>
     ('a, 'g, 'w, 've, 'gen) prog \<Rightarrow> ('a, 'g, 'w, 've, 'gen) prog" where
  "run_episodes E k p = fold (\<lambda>episode_idx. run_episode E) [0..<k] p"

text \<open>
  Lines 155 to 203. \<^verbatim>\<open>episode_count\<close> is an \<^verbatim>\<open>int\<close> read from an \<^verbatim>\<open>unsigned int\<close>; the loop
  does not run when it is not positive.
\<close>

definition optimize ::
  "('a::{zero,plus,times}, 'g, 'w, 'opt, 've, 'gen) collaborators \<Rightarrow> args \<Rightarrow>
     ('a, 'g, 'w, 've, 'gen) prog \<Rightarrow> ('a, 'g, 'w, 've, 'gen) prog" where
  "optimize E a p = (if optim_flag a then run_episodes E (nat (episode_count p)) p else p)"

subsection \<open>Lines 230 to 255: replay in the viewer\<close>

text \<open>
  \<^verbatim>\<open>input_sequence.col(j)\<close> as a read that can fail: outside the matrix Eigen asserts, or
  reads memory that is not the matrix's.
\<close>

definition col :: "'x list \<Rightarrow> int \<Rightarrow> 'x option" where
  "col M j = (if 0 \<le> j \<and> j < int (length M) then Some (M ! nat j) else None)"

text \<open>
  Lines 238 to 251: one pass of the inner loop, on the counters \<open>i\<close>, \<open>j\<close> and the program
  state.
\<close>

fun render_tick ::
  "('a, 'g, 'w, 'opt, 've, 'gen) collaborators \<Rightarrow> int \<times> int \<times> ('a, 'g, 'w, 've, 'gen) prog \<Rightarrow>
     (int \<times> int \<times> ('a, 'g, 'w, 've, 'gen) prog) option" where
  "render_tick E (i, j, p) =
     (case col (input_sequence p) j of
        None \<Rightarrow> None
      | Some u \<Rightarrow>
          let p1 = emit (SetJointTargetPositions u) (p\<lparr>main_sim := setJointTargetPositions E (main_sim p) u\<rparr>);
              p2 = emit Step (p1\<lparr>main_sim := step E (main_sim p1)\<rparr>);
              i1 = i + 1;
              (i2, j2) = (if i1 \<ge> int interval then (0, j + 1) else (i1, j))
          in if j2 \<ge> int (length (input_sequence p2)) then
               Some (0, 0, emit RestoreState (p2\<lparr>main_sim := restoreState (main_sim p2)\<rparr>))
             else Some (i2, j2, p2))"

fun render_ticks ::
  "('a, 'g, 'w, 'opt, 've, 'gen) collaborators \<Rightarrow> nat \<Rightarrow> int \<times> int \<times> ('a, 'g, 'w, 've, 'gen) prog \<Rightarrow>
     (int \<times> int \<times> ('a, 'g, 'w, 've, 'gen) prog) option" where
  "render_ticks E 0 s = Some s"
| "render_ticks E (Suc n) s =
     (case render_tick E s of None \<Rightarrow> None | Some s' \<Rightarrow> render_ticks E n s')"

fun render_frames ::
  "('a, 'g, 'w, 'opt, 've, 'gen) collaborators \<Rightarrow> nat list \<Rightarrow> int \<times> int \<times> ('a, 'g, 'w, 've, 'gen) prog \<Rightarrow>
     (int \<times> int \<times> ('a, 'g, 'w, 've, 'gen) prog) option" where
  "render_frames E [] s = Some s"
| "render_frames E (n # ns) s =
     (case render_ticks E n s of None \<Rightarrow> None | Some s' \<Rightarrow> render_frames E ns s')"

subsection \<open>The program\<close>

text \<open>
  How \<^verbatim>\<open>main\<close> ends: \<^verbatim>\<open>return 1\<close> at line 74, with the events up to there; a read outside
  the control plan in the viewer loop; or the end of \<^verbatim>\<open>main\<close> (exit code 0), with the final
  program state. The returns of lines 45 to 61 belong to the command-line parser.
\<close>

datatype ('e, 'p) outcome = Return_1 "'e list" | Out_of_range | Return_0 'p

fun exit_code :: "('e, 'p) outcome \<Rightarrow> int option" where
  "exit_code (Return_1 tr) = Some 1"
| "exit_code Out_of_range = None"
| "exit_code (Return_0 p) = Some 0"

definition main_model ::
  "('g, 'r, 'm) graph_lib \<Rightarrow> ('a::{zero,plus,times}, 'g, 'w, 'opt, 've, 'gen) collaborators \<Rightarrow> args \<Rightarrow>
     ('a event, ('a, 'g, 'w, 've, 'gen) prog) outcome" where
  "main_model G E a =
     (let rule_graphs = loadGraphs G (graph_file_arg a);
          tr0 = [LoadGraphs (graph_file_arg a)]
      in if rule_graphs = [] then
           Return_1 (tr0 @ [Stderr ''Graph file does not contain any graphs''])
         else
           let (rules, tr1) = convert_rules G rule_graphs tr0;
               (g, tr2) = generate_robot_graph G rules (rule_sequence_arg a) tr1;
               p0 = initialise E a g tr2;
               p1 = optimize E a p0;
               p2 = emit SaveState (p1\<lparr>main_sim := saveState (main_sim p1)\<rparr>)
           in if render_flag a then
                (case render_frames E (frame_steps E) (0, 0, p2) of
                   None \<Rightarrow> Out_of_range
                 | Some (i, j, p3) \<Rightarrow> Return_0 p3)
              else Return_0 p2)"

text \<open>Lines 78 to 205 for a graph file that holds a graph: the state the viewer starts from.\<close>

definition before_viewer ::
  "('g, 'r, 'm) graph_lib \<Rightarrow> ('a::{zero,plus,times}, 'g, 'w, 'opt, 've, 'gen) collaborators \<Rightarrow> args \<Rightarrow>
     ('a, 'g, 'w, 've, 'gen) prog" where
  "before_viewer G E a =
     (let (rules, tr1) = convert_rules G (loadGraphs G (graph_file_arg a)) [LoadGraphs (graph_file_arg a)];
          (g, tr2) = generate_robot_graph G rules (rule_sequence_arg a) tr1;
          p1 = optimize E a (initialise E a g tr2)
      in emit SaveState (p1\<lparr>main_sim := saveState (main_sim p1)\<rparr>))"

subsection \<open>Reading traces\<close>

text \<open>
  The events of the lockstep loop (lines 173 to 185): the calls that update and advance
  the optimizer, take an observation, set the joint targets, step the simulation and
  evaluate the objective.
\<close>

fun replay_event :: "'a event \<Rightarrow> bool" where
  "replay_event Update = True"
| "replay_event (Advance n) = True"
| "replay_event (GetObservation j) = True"
| "replay_event (SetJointTargetPositions u) = True"
| "replay_event Step = True"
| "replay_event Objective = True"
| "replay_event e = False"

text \<open>
  What the lockstep loop leaves alone: \<open>evolves p p'\<close> when \<open>p'\<close> differs from \<open>p\<close> in the
  world of the main simulation, in entries of \<open>input_sequence\<close>, \<open>obs\<close> and \<open>rewards\<close>, and
  in a trace longer by replay events.
\<close>

definition evolves :: "('a, 'g, 'w, 've, 'gen) prog \<Rightarrow> ('a, 'g, 'w, 've, 'gen) prog \<Rightarrow> bool" where
  "evolves p p' \<longleftrightarrow>
     robot_graph p' = robot_graph p \<and> generator p' = generator p \<and>
     saved_state (main_sim p') = saved_state (main_sim p) \<and>
     dof_count p' = dof_count p \<and> thread_count p' = thread_count p \<and>
     value_estimator p' = value_estimator p \<and> episode_len p' = episode_len p \<and>
     episode_count p' = episode_count p \<and>
     length (input_sequence p') = length (input_sequence p) \<and>
     length (obs p') = length (obs p) \<and> length (rewards p') = length (rewards p) \<and>
     returns p' = returns p \<and> replay_obs p' = replay_obs p \<and>
     replay_returns p' = replay_returns p \<and>
     (\<exists>ext. trace p' = trace p @ ext \<and> list_all replay_event ext)"

text \<open>
  The worlds a simulation passes through in \<open>n\<close> physics steps from \<open>w\<close> while the joint
  targets are held at \<open>u\<close>: the targets are set, then the simulation steps, \<open>n\<close> times.
\<close>

fun held_steps ::
  "('a, 'g, 'w, 'opt, 've, 'gen) collaborators \<Rightarrow> 'a list \<Rightarrow> nat \<Rightarrow> 'w \<Rightarrow> 'w list" where
  "held_steps E u 0 w = []"
| "held_steps E u (Suc n) w =
     (let w' = sim_step E (sim_setJointTargetPositions E w u) in w' # held_steps E u n w')"

text \<open>
  The events of the viewer loop, which sends columns of the control plan \<open>M\<close> only; and
  \<open>replays p p'\<close>: the viewer loop has taken \<open>p\<close> to \<open>p'\<close>, changing the world of the main
  simulation and appending such events.
\<close>

fun render_event :: "'a list list \<Rightarrow> 'a event \<Rightarrow> bool" where
  "render_event M (SetJointTargetPositions u) = (u \<in> set M)"
| "render_event M Step = True"
| "render_event M RestoreState = True"
| "render_event M e = False"

definition replays :: "('a, 'g, 'w, 've, 'gen) prog \<Rightarrow> ('a, 'g, 'w, 've, 'gen) prog \<Rightarrow> bool" where
  "replays p p' \<longleftrightarrow>
     (\<exists>w ext. p' = p\<lparr>main_sim := (main_sim p)\<lparr>world := w\<rparr>, trace := trace p @ ext\<rparr> \<and>
        list_all (render_event (input_sequence p)) ext)"

text \<open>
  The invariant of the viewer loop, \<open>w0\<close> the world saved at line 205: both counters in
  range, the checkpoint still \<open>w0\<close>, and the simulation at \<open>w0\<close> whenever a replay cycle
  starts.
\<close>

fun render_inv :: "'w \<Rightarrow> int \<times> int \<times> ('a, 'g, 'w, 've, 'gen) prog \<Rightarrow> bool" where
  "render_inv w0 (i, j, p) \<longleftrightarrow>
     0 \<le> i \<and> i < int interval \<and> 0 \<le> j \<and> j < int (length (input_sequence p)) \<and>
     saved_state (main_sim p) = Some w0 \<and> (i = 0 \<and> j = 0 \<longrightarrow> world (main_sim p) = w0)"

text \<open>Joint targets that are all zero, for \<open>d\<close> degrees of freedom.\<close>

fun zero_targets :: "nat \<Rightarrow> ('a::zero) event \<Rightarrow> bool" where
  "zero_targets d (SetJointTargetPositions u) = (u = replicate d 0)"
| "zero_targets d e = True"

text \<open>The position of the first event of a kind in a trace (its length when there is none).\<close>

definition event_index :: "('a event \<Rightarrow> bool) \<Rightarrow> 'a event list \<Rightarrow> nat" where
  "event_index P tr = length (takeWhile (\<lambda>e. \<not> P e) tr)"

fun is_RestoreState :: "'a event \<Rightarrow> bool" where
  "is_RestoreState RestoreState = True"
| "is_RestoreState e = False"

fun is_EstimateValue :: "'a event \<Rightarrow> bool" where
  "is_EstimateValue (EstimateValue v) = True"
| "is_EstimateValue e = False"

subsection \<open>An example run\<close>

text \<open>
  Collaborators small enough to run by hand. A graph is its number of nodes; the rule made
  from a graph matches a host of as many nodes, once, and adds a node; the graph file holds
  three graphs. The world is a position that each physics step advances by one and the
  objective reads; the optimizer counts its updates and plans that count for the first
  joint; the value estimator counts its trainings and estimates 10; the discount factor
  is a half. \<open>example_episode\<close> is a program state with four control steps per episode
  and rewards 1, 2, 3, 4.
\<close>

definition example_graphs :: "(nat, nat, nat) graph_lib" where
  "example_graphs =
     \<lparr>loadGraphs = (\<lambda>file. if file = ''rules.dot'' then [5, 1, 3] else []),
      createRuleFromGraph = (\<lambda>g. g),
      rule_lhs = (\<lambda>r. r),
      findMatches = (\<lambda>pattern g. if pattern = g then [0] else []),
      applyRule = (\<lambda>r g m. g + 1),
      seed_graph = 1\<rparr>"

definition example_collaborators :: "(real, nat, real, nat, nat, 32 word) collaborators" where
  "example_collaborators =
     \<lparr>make_sim = (\<lambda>g. 0),
      getRobotDofCount = (\<lambda>w. 2),
      hardware_concurrency = 8,
      sim_setJointTargetPositions = (\<lambda>w u. w),
      sim_step = (\<lambda>w. w + 1),
      objective_fn = (\<lambda>w. w),
      mt19937 = (\<lambda>s. s),
      mt19937_next = (\<lambda>g. (g, g + 1)),
      MPPIOptimizer = (\<lambda>g d t s v. 0),
      update = Suc,
      advance = (\<lambda>optimizer n. optimizer),
      opt_input_sequence = (\<lambda>optimizer. [[real optimizer, 0]]),
      NullValueEstimator = 0,
      getObservationSize = (\<lambda>v. 1),
      getObservation = (\<lambda>v w. [w]),
      estimateValue = (\<lambda>v x. 10),
      train = (\<lambda>v os rs. v + 1),
      discount_factor = 1 / 2,
      uninitialized = - 1,
      frame_steps = [3, 2]\<rparr>"

definition example_args :: args where
  "example_args =
     \<lparr>graph_file_arg = ''rules.dot'', rule_sequence_arg = [1, 0, 5], seed_flag = 42, jobs_flag = 0,
      episodes_flag = 3, optim_flag = False, render_flag = True, save_image_flag = ''''\<rparr>"

definition example_episode :: "(real, nat, real, nat, 32 word) prog" where
  "example_episode =
     \<lparr>robot_graph = 2, generator = 42, main_sim = \<lparr>world = 0, saved_state = None\<rparr>, dof_count = 2,
      thread_count = 8, value_estimator = 0, episode_len = 4, episode_count = 3,
      input_sequence = replicate 4 [0, 0], obs = replicate 5 [- 1], rewards = [1, 2, 3, 4],
      returns = replicate 5 (- 1), replay_obs = [], replay_returns = [], trace = []\<rparr>"

section \<open>Lemmas\<close>

subsection \<open>Events and the backward recursion\<close>

lemma emit_fields [simp]:
  "robot_graph (emit e p) = robot_graph p" "generator (emit e p) = generator p"
  "main_sim (emit e p) = main_sim p" "dof_count (emit e p) = dof_count p"
  "thread_count (emit e p) = thread_count p" "value_estimator (emit e p) = value_estimator p"
  "episode_len (emit e p) = episode_len p" "episode_count (emit e p) = episode_count p"
  "input_sequence (emit e p) = input_sequence p" "obs (emit e p) = obs p"
  "rewards (emit e p) = rewards p" "returns (emit e p) = returns p"
  "replay_obs (emit e p) = replay_obs p" "replay_returns (emit e p) = replay_returns p"
  "trace (emit e p) = trace p @ [e]"
  by (simp_all add: emit_def)

lemma fold_returns:
  "fold (\<lambda>j p. p\<lparr>returns := (returns p)[j := rewards p ! j + g * returns p ! (j + 1)]\<rparr>) js p
   = p\<lparr>returns := fold (\<lambda>j xs. xs[j := rewards p ! j + g * xs ! (j + 1)]) js (returns p)\<rparr>"
  by (induction js arbitrary: p) simp_all

lemma backward_length: "length (fold (\<lambda>j xs. xs[j := rs ! j + g * xs ! (j + 1)]) js xs) = length xs"
  by (induction js arbitrary: xs) simp_all

lemma backward_spec:
  "n < length xs \<Longrightarrow>
   (\<forall>k\<ge>n. fold (\<lambda>j xs. xs[j := rs ! j + g * xs ! (j + 1)]) (rev [0..<n]) xs ! k = xs ! k) \<and>
   (\<forall>t<n. fold (\<lambda>j xs. xs[j := rs ! j + g * xs ! (j + 1)]) (rev [0..<n]) xs ! t
      = rs ! t + g * fold (\<lambda>j xs. xs[j := rs ! j + g * xs ! (j + 1)]) (rev [0..<n]) xs ! (t + 1))"
proof (induction n arbitrary: xs)
  case 0
  then show ?case by simp
next
  case (Suc n)
  let ?f = "\<lambda>j xs. xs[j := rs ! j + g * xs ! (j + 1)]"
  let ?ys = "xs[n := rs ! n + g * xs ! (n + 1)]"
  have n: "n < length ?ys" using Suc.prems by simp
  note IH = Suc.IH[OF n]
  have unfold: "fold ?f (rev [0..<Suc n]) xs = fold ?f (rev [0..<n]) ?ys" by simp
  show ?case
  proof (intro conjI allI impI)
    fix k assume "Suc n \<le> k"
    then show "fold ?f (rev [0..<Suc n]) xs ! k = xs ! k"
      using IH unfolding unfold by simp
  next
    fix t assume t: "t < Suc n"
    show "fold ?f (rev [0..<Suc n]) xs ! t = rs ! t + g * fold ?f (rev [0..<Suc n]) xs ! (t + 1)"
    proof (cases "t = n")
      case True
      have "fold ?f (rev [0..<n]) ?ys ! n = ?ys ! n" using IH by simp
      moreover have "fold ?f (rev [0..<n]) ?ys ! (n + 1) = ?ys ! (n + 1)" using IH by simp
      ultimately show ?thesis using Suc.prems unfolding unfold True by simp
    next
      case False
      then have "t < n" using t by simp
      then show ?thesis using IH unfolding unfold by simp
    qed
  qed
qed

subsection \<open>What the lockstep loop leaves alone\<close>

lemma evolves_refl: "evolves p p"
  by (simp add: evolves_def)

lemma evolves_trans:
  assumes "evolves p q" "evolves q r"
  shows "evolves p r"
proof -
  obtain e1 where e1: "trace q = trace p @ e1" "list_all replay_event e1"
    using assms(1) unfolding evolves_def by blast
  obtain e2 where e2: "trace r = trace q @ e2" "list_all replay_event e2"
    using assms(2) unfolding evolves_def by blast
  have "trace r = trace p @ (e1 @ e2) \<and> list_all replay_event (e1 @ e2)"
    using e1 e2 by simp
  then have "\<exists>ext. trace r = trace p @ ext \<and> list_all replay_event ext" by blast
  then show ?thesis using assms unfolding evolves_def by simp
qed

lemma physics_step_evolves: "evolves p (physics_step E j p)"
  unfolding evolves_def
  by (simp add: physics_step_def Let_def setJointTargetPositions_def step_def)

lemma fold_physics_evolves: "evolves p (fold (\<lambda>i. physics_step E j) is p)"
proof (induction "is" arbitrary: p)
  case Nil
  show ?case by (simp add: evolves_refl)
next
  case (Cons i "is")
  show ?case using evolves_trans[OF physics_step_evolves Cons.IH] by simp
qed

lemma control_step_evolves: "evolves p (snd (control_step E j (optimizer, p)))"
proof -
  let ?p5 = "(emit (GetObservation j)
      ((emit (Advance 1) ((emit Update p)\<lparr>input_sequence := (input_sequence (emit Update p))[j := opt_input_sequence E (update E optimizer) ! 0]\<rparr>))
        \<lparr>obs := (obs p)[j := getObservation E (value_estimator p) (world (main_sim p))]\<rparr>))
      \<lparr>rewards := (rewards p)[j := 0]\<rparr>"
  have "evolves p ?p5" unfolding evolves_def by simp
  moreover have "snd (control_step E j (optimizer, p)) = fold (\<lambda>i. physics_step E j) [0..<interval] ?p5"
    by (simp add: Let_def)
  ultimately show ?thesis using evolves_trans[OF _ fold_physics_evolves] by simp
qed

lemma fold_control_evolves: "evolves p (snd (fold (control_step E) js (optimizer, p)))"
proof (induction js arbitrary: optimizer p)
  case Nil
  show ?case by (simp add: evolves_refl)
next
  case (Cons j js)
  obtain o1 p1 where s: "control_step E j (optimizer, p) = (o1, p1)" by (cases "control_step E j (optimizer, p)")
  have "evolves p p1" using control_step_evolves[of p E j optimizer] s by simp
  then have "evolves p (snd (fold (control_step E) js (o1, p1)))"
    using evolves_trans[OF _ Cons.IH[of p1 o1]] by simp
  then show ?case using s by (simp del: control_step.simps)
qed

subsection \<open>Warm-up and lockstep\<close>

lemma warm_up_fold:
  "fold (\<lambda>i (optimizer, p). (update E optimizer, emit Update p)) xs (optimizer, p)
   = ((update E ^^ length xs) optimizer, p\<lparr>trace := trace p @ replicate (length xs) Update\<rparr>)"
proof (induction xs arbitrary: optimizer p)
  case Nil
  show ?case by simp
next
  case (Cons x xs)
  show ?case by (simp add: Cons.IH funpow_swap1)
qed

lemma warm_up_eq:
  "warm_up E (optimizer, p) = ((update E ^^ 10) optimizer, p\<lparr>trace := trace p @ replicate 10 Update\<rparr>)"
  unfolding warm_up_def using warm_up_fold[of E "[0..<10]" optimizer p] by simp

lemma new_optimizer_eq:
  "snd (new_optimizer E p) =
     p\<lparr>generator := snd (mt19937_next E (generator p)),
       trace := trace p @ [NewOptimizer (fst (mt19937_next E (generator p)))]\<rparr>"
  by (simp add: new_optimizer_def Let_def split_def emit_def)

lemma lockstep_shape:
  "\<exists>q. evolves (emit SaveState (p\<lparr>main_sim := saveState (main_sim p)\<rparr>)) q \<and>
       lockstep E (optimizer, p) =
         emit RestoreState
           ((emit (GetObservation (episode_len q))
              (q\<lparr>obs := (obs q)[episode_len q := getObservation E (value_estimator q) (world (main_sim q))]\<rparr>))
            \<lparr>main_sim := restoreState (main_sim q)\<rparr>)"
proof -
  let ?p1 = "emit SaveState (p\<lparr>main_sim := saveState (main_sim p)\<rparr>)"
  obtain o2 q where f: "fold (control_step E) [0..<length (input_sequence ?p1)] (optimizer, ?p1) = (o2, q)"
    by (cases "fold (control_step E) [0..<length (input_sequence ?p1)] (optimizer, ?p1)")
  have "evolves ?p1 q"
    using fold_control_evolves[of ?p1 E "[0..<length (input_sequence ?p1)]" optimizer]
    unfolding f by simp
  moreover have "lockstep E (optimizer, p) =
         emit RestoreState
           ((emit (GetObservation (episode_len q))
              (q\<lparr>obs := (obs q)[episode_len q := getObservation E (value_estimator q) (world (main_sim q))]\<rparr>))
            \<lparr>main_sim := restoreState (main_sim q)\<rparr>)"
    using f by (simp add: Let_def)
  ultimately show ?thesis by blast
qed

lemma lockstep_frame:
  "robot_graph (lockstep E (optimizer, p)) = robot_graph p"
  "generator (lockstep E (optimizer, p)) = generator p"
  "dof_count (lockstep E (optimizer, p)) = dof_count p"
  "thread_count (lockstep E (optimizer, p)) = thread_count p"
  "value_estimator (lockstep E (optimizer, p)) = value_estimator p"
  "episode_len (lockstep E (optimizer, p)) = episode_len p"
  "episode_count (lockstep E (optimizer, p)) = episode_count p"
  "length (input_sequence (lockstep E (optimizer, p))) = length (input_sequence p)"
  "length (obs (lockstep E (optimizer, p))) = length (obs p)"
  "length (rewards (lockstep E (optimizer, p))) = length (rewards p)"
  "returns (lockstep E (optimizer, p)) = returns p"
  "replay_obs (lockstep E (optimizer, p)) = replay_obs p"
  "replay_returns (lockstep E (optimizer, p)) = replay_returns p"
  "main_sim (lockstep E (optimizer, p)) = \<lparr>world = world (main_sim p), saved_state = Some (world (main_sim p))\<rparr>"
  using lockstep_shape[of p E optimizer] unfolding evolves_def
  by (auto simp add: saveState_def restoreState_def simp del: lockstep.simps)

lemma lockstep_trace:
  "\<exists>mid. trace (lockstep E (optimizer, p)) =
            trace p @ [SaveState] @ mid @ [GetObservation (episode_len p), RestoreState] \<and>
         list_all replay_event mid"
  using lockstep_shape[of p E optimizer] unfolding evolves_def
  by (auto simp del: lockstep.simps)

subsection \<open>Returns, replay buffer and retraining\<close>

lemma bootstrap_returns_eq:
  "bootstrap_returns E p =
     p\<lparr>returns := fold (\<lambda>j xs. xs[j := rewards p ! j + discount_factor E * xs ! (j + 1)])
                     (rev [0..<episode_len p])
                     ((returns p)[length (returns p) - 1 :=
                        estimateValue E (value_estimator p) (obs p ! episode_len p)]),
       trace := trace p @ [EstimateValue (obs p ! episode_len p)]\<rparr>"
  unfolding bootstrap_returns_def Let_def fold_returns by (simp add: emit_def)

lemma bootstrap_returns_recursion:
  assumes "length (returns p) = episode_len p + 1"
  shows "returns (bootstrap_returns E p) ! episode_len p
           = estimateValue E (value_estimator p) (obs p ! episode_len p)"
    and "t < episode_len p \<Longrightarrow>
         returns (bootstrap_returns E p) ! t
           = rewards p ! t + discount_factor E * returns (bootstrap_returns E p) ! (t + 1)"
proof -
  let ?xs = "(returns p)[length (returns p) - 1 :=
                estimateValue E (value_estimator p) (obs p ! episode_len p)]"
  have len: "episode_len p < length ?xs" using assms by simp
  note spec = backward_spec[OF len, of "rewards p" "discount_factor E"]
  show "returns (bootstrap_returns E p) ! episode_len p
           = estimateValue E (value_estimator p) (obs p ! episode_len p)"
    using spec assms by (simp add: bootstrap_returns_eq)
  show "t < episode_len p \<Longrightarrow>
         returns (bootstrap_returns E p) ! t
           = rewards p ! t + discount_factor E * returns (bootstrap_returns E p) ! (t + 1)"
    using spec by (simp add: bootstrap_returns_eq)
qed

lemma append_replay_eq:
  "append_replay E p =
     p\<lparr>replay_obs := replay_obs p @ take (episode_len p) (obs p),
       replay_returns := replay_returns p @ take (episode_len p) (returns p)\<rparr>"
  by (simp add: append_replay_def Let_def conservativeResize_def assign_tail_def)

lemma retrain_eq:
  "retrain E p =
     p\<lparr>value_estimator := train E (value_estimator p) (replay_obs p) (replay_returns p),
       trace := trace p @ [Train (replay_obs p) (replay_returns p)]\<rparr>"
  by (simp add: retrain_def emit_def)

lemma replayed_frame:
  "robot_graph (replayed E p) = robot_graph p"
  "dof_count (replayed E p) = dof_count p"
  "thread_count (replayed E p) = thread_count p"
  "value_estimator (replayed E p) = value_estimator p"
  "episode_len (replayed E p) = episode_len p"
  "episode_count (replayed E p) = episode_count p"
  "length (input_sequence (replayed E p)) = length (input_sequence p)"
  "length (obs (replayed E p)) = length (obs p)"
  "length (rewards (replayed E p)) = length (rewards p)"
  "returns (replayed E p) = returns p"
  "replay_obs (replayed E p) = replay_obs p"
  "replay_returns (replayed E p) = replay_returns p"
  "main_sim (replayed E p) = \<lparr>world = world (main_sim p), saved_state = Some (world (main_sim p))\<rparr>"
  unfolding replayed_def
  by (cases "new_optimizer E p"; use new_optimizer_eq[of E p] in
      \<open>simp add: warm_up_eq lockstep_frame del: lockstep.simps\<close>)+

lemma replayed_trace:
  "\<exists>mid. trace (replayed E p) =
            trace p @ NewOptimizer (fst (mt19937_next E (generator p))) # replicate 10 Update @
            [SaveState] @ mid @ [GetObservation (episode_len p), RestoreState] \<and>
         list_all replay_event mid"
proof -
  obtain o1 p1 where n: "new_optimizer E p = (o1, p1)" by (cases "new_optimizer E p")
  have p1: "p1 = p\<lparr>generator := snd (mt19937_next E (generator p)),
       trace := trace p @ [NewOptimizer (fst (mt19937_next E (generator p)))]\<rparr>"
    using new_optimizer_eq[of E p] n by simp
  show ?thesis
    unfolding replayed_def n warm_up_eq
    using lockstep_trace[of E "(update E ^^ 10) o1" "p1\<lparr>trace := trace p1 @ replicate 10 Update\<rparr>"]
    by (simp add: p1 del: lockstep.simps)
qed

lemmas run_episode_eq = run_episode_def

subsection \<open>Episodes\<close>

lemma run_episode_frame:
  "robot_graph (run_episode E p) = robot_graph p"
  "dof_count (run_episode E p) = dof_count p"
  "thread_count (run_episode E p) = thread_count p"
  "episode_len (run_episode E p) = episode_len p"
  "episode_count (run_episode E p) = episode_count p"
  "length (input_sequence (run_episode E p)) = length (input_sequence p)"
  "length (obs (run_episode E p)) = length (obs p)"
  "length (rewards (run_episode E p)) = length (rewards p)"
  "main_sim (run_episode E p) = \<lparr>world = world (main_sim p), saved_state = Some (world (main_sim p))\<rparr>"
  by (simp_all add: run_episode_eq retrain_eq append_replay_eq bootstrap_returns_eq replayed_frame)

lemma run_episode_returns_length: "length (returns (run_episode E p)) = length (returns p)"
  unfolding run_episode_eq retrain_eq append_replay_eq bootstrap_returns_eq
  using backward_length[of "rewards (replayed E p)" "discount_factor E"]
  by (simp add: replayed_frame)

lemma run_episode_data:
  "obs (run_episode E p) = obs (replayed E p)"
  "rewards (run_episode E p) = rewards (replayed E p)"
  "returns (run_episode E p) = returns (bootstrap_returns E (replayed E p))"
  "replay_obs (run_episode E p) = replay_obs p @ take (episode_len p) (obs (run_episode E p))"
  "replay_returns (run_episode E p) = replay_returns p @ take (episode_len p) (returns (run_episode E p))"
  "value_estimator (run_episode E p) =
     train E (value_estimator p) (replay_obs (run_episode E p)) (replay_returns (run_episode E p))"
  by (simp_all add: run_episode_eq retrain_eq append_replay_eq bootstrap_returns_eq replayed_frame)

lemma run_episode_sized: "sized p \<Longrightarrow> sized (run_episode E p)"
  by (simp add: sized_def run_episode_frame run_episode_returns_length)

lemma run_episode_trace:
  "\<exists>mid. trace (run_episode E p) =
            trace p @ NewOptimizer (fst (mt19937_next E (generator p))) # replicate 10 Update @
            [SaveState] @ mid @
            [GetObservation (episode_len p), RestoreState,
             EstimateValue (obs (run_episode E p) ! episode_len p),
             Train (replay_obs (run_episode E p)) (replay_returns (run_episode E p))] \<and>
         list_all replay_event mid"
proof -
  obtain mid where m: "trace (replayed E p) =
            trace p @ NewOptimizer (fst (mt19937_next E (generator p))) # replicate 10 Update @
            [SaveState] @ mid @ [GetObservation (episode_len p), RestoreState]" "list_all replay_event mid"
    using replayed_trace[of E p] by blast
  have "trace (run_episode E p) = trace (replayed E p) @
     [EstimateValue (obs (run_episode E p) ! episode_len p),
             Train (replay_obs (run_episode E p)) (replay_returns (run_episode E p))]"
    by (simp add: run_episode_eq retrain_eq append_replay_eq bootstrap_returns_eq replayed_frame)
  then show ?thesis using m by simp
qed

lemma run_episodes_Suc: "run_episodes E (Suc k) p = run_episode E (run_episodes E k p)"
  by (simp add: run_episodes_def)

lemma run_episodes_0: "run_episodes E 0 p = p"
  by (simp add: run_episodes_def)

lemma run_episodes_frame:
  "episode_len (run_episodes E k p) = episode_len p"
  "robot_graph (run_episodes E k p) = robot_graph p"
  "dof_count (run_episodes E k p) = dof_count p"
  "length (input_sequence (run_episodes E k p)) = length (input_sequence p)"
  "world (main_sim (run_episodes E k p)) = world (main_sim p)"
  by (induction k) (simp_all add: run_episodes_0 run_episodes_Suc run_episode_frame)

lemma run_episodes_sized: "sized p \<Longrightarrow> sized (run_episodes E k p)"
  by (induction k) (simp_all add: run_episodes_0 run_episodes_Suc run_episode_sized)

lemma run_episode_replay_length:
  assumes "sized p"
  shows "length (replay_obs (run_episode E p)) = length (replay_obs p) + episode_len p"
    and "length (replay_returns (run_episode E p)) = length (replay_returns p) + episode_len p"
proof -
  have s: "sized (run_episode E p)" using assms by (rule run_episode_sized)
  show "length (replay_obs (run_episode E p)) = length (replay_obs p) + episode_len p"
    using s run_episode_data(4)[of E p] by (simp add: sized_def run_episode_frame)
  show "length (replay_returns (run_episode E p)) = length (replay_returns p) + episode_len p"
    using s run_episode_data(5)[of E p] by (simp add: sized_def run_episode_frame)
qed

lemma run_episodes_replay_length:
  assumes "sized p"
  shows "length (replay_obs (run_episodes E k p)) = length (replay_obs p) + k * episode_len p \<and>
         length (replay_returns (run_episodes E k p)) = length (replay_returns p) + k * episode_len p"
proof (induction k)
  case 0
  show ?case by (simp add: run_episodes_0)
next
  case (Suc k)
  have "sized (run_episodes E k p)" using assms by (rule run_episodes_sized)
  from run_episode_replay_length[OF this, where E = E] Suc show ?case
    by (simp add: run_episodes_Suc run_episodes_frame)
qed

lemma run_episode_returns:
  assumes "sized p"
  shows "returns (run_episode E p) ! episode_len p
           = estimateValue E (value_estimator p) (obs (run_episode E p) ! episode_len p) \<and>
         (\<forall>t<episode_len p.
            returns (run_episode E p) ! t
              = rewards (run_episode E p) ! t + discount_factor E * returns (run_episode E p) ! (t + 1))"
proof -
  have len: "length (returns (replayed E p)) = episode_len (replayed E p) + 1"
    using assms by (simp add: replayed_frame sized_def)
  show ?thesis
    using bootstrap_returns_recursion[OF len, where E = E]
    by (simp add: run_episode_data(1,2,3) replayed_frame)
qed

subsection \<open>One control step\<close>

lemma physics_step_eq:
  "physics_step E j p =
     p\<lparr>main_sim := (main_sim p)\<lparr>world := sim_step E (sim_setJointTargetPositions E (world (main_sim p)) (input_sequence p ! j))\<rparr>,
       rewards := (rewards p)[j := rewards p ! j +
          objective_fn E (sim_step E (sim_setJointTargetPositions E (world (main_sim p)) (input_sequence p ! j)))],
       trace := trace p @ [SetJointTargetPositions (input_sequence p ! j), Step, Objective]\<rparr>"
  by (simp add: physics_step_def Let_def emit_def setJointTargetPositions_def step_def)

lemma fold_physics_eq:
  assumes "j < length (rewards p)"
  shows "fold (\<lambda>i. physics_step E j) xs p =
     p\<lparr>main_sim := (main_sim p)\<lparr>world :=
          last (world (main_sim p) # held_steps E (input_sequence p ! j) (length xs) (world (main_sim p)))\<rparr>,
       rewards := (rewards p)[j := foldl (+) (rewards p ! j)
          (map (objective_fn E) (held_steps E (input_sequence p ! j) (length xs) (world (main_sim p))))],
       trace := trace p @ concat (replicate (length xs) [SetJointTargetPositions (input_sequence p ! j), Step, Objective])\<rparr>"
  using assms
proof (induction xs arbitrary: p)
  case Nil
  show ?case by simp
next
  case (Cons x xs)
  have len: "j < length (rewards (physics_step E j p))"
    using Cons.prems by (simp add: physics_step_eq)
  show ?case
    using Cons.prems
    by (simp add: Cons.IH[OF len]) (simp add: physics_step_eq Let_def)
qed

lemma held_steps_length: "length (held_steps E u n w) = n"
  by (induction n arbitrary: w) (simp_all add: Let_def)

lemma control_step_eq:
  assumes "j < length (rewards p)" and "j < length (input_sequence p)"
  shows "control_step E j (optimizer, p) =
    (advance E (update E optimizer) 1,
     p\<lparr>main_sim := (main_sim p)\<lparr>world :=
          last (world (main_sim p) #
                held_steps E (opt_input_sequence E (update E optimizer) ! 0) interval (world (main_sim p)))\<rparr>,
       input_sequence := (input_sequence p)[j := opt_input_sequence E (update E optimizer) ! 0],
       obs := (obs p)[j := getObservation E (value_estimator p) (world (main_sim p))],
       rewards := (rewards p)[j := foldl (+) 0
          (map (objective_fn E)
             (held_steps E (opt_input_sequence E (update E optimizer) ! 0) interval (world (main_sim p))))],
       trace := trace p @ [Update, Advance 1, GetObservation j] @
          concat (replicate interval
            [SetJointTargetPositions (opt_input_sequence E (update E optimizer) ! 0), Step, Objective])\<rparr>)"
proof -
  let ?a = "opt_input_sequence E (update E optimizer) ! 0"
  let ?p5 = "(emit (GetObservation j)
      ((emit (Advance 1) ((emit Update p)\<lparr>input_sequence := (input_sequence (emit Update p))[j := ?a]\<rparr>))
        \<lparr>obs := (obs p)[j := getObservation E (value_estimator p) (world (main_sim p))]\<rparr>))
      \<lparr>rewards := (rewards p)[j := 0]\<rparr>"
  have len: "j < length (rewards ?p5)" using assms by simp
  have c: "control_step E j (optimizer, p) =
      (advance E (update E optimizer) 1, fold (\<lambda>i. physics_step E j) [0..<interval] ?p5)"
    by (simp add: Let_def)
  show ?thesis
    unfolding c fold_physics_eq[OF len] using assms by (simp add: emit_def)
qed

subsection \<open>The viewer loop\<close>

lemma replays_refl: "replays p p"
proof -
  have "p = p\<lparr>main_sim := (main_sim p)\<lparr>world := world (main_sim p)\<rparr>, trace := trace p @ []\<rparr>"
    by simp
  moreover have "list_all (render_event (input_sequence p)) []" by simp
  ultimately show ?thesis unfolding replays_def by blast
qed

lemma replays_input_sequence: "replays p q \<Longrightarrow> input_sequence q = input_sequence p"
  unfolding replays_def by auto

lemma replays_trans:
  assumes "replays p q" and "replays q r"
  shows "replays p r"
proof -
  obtain w1 e1 where q: "q = p\<lparr>main_sim := (main_sim p)\<lparr>world := w1\<rparr>, trace := trace p @ e1\<rparr>"
    and e1: "list_all (render_event (input_sequence p)) e1"
    using assms(1) unfolding replays_def by blast
  obtain w2 e2 where r: "r = q\<lparr>main_sim := (main_sim q)\<lparr>world := w2\<rparr>, trace := trace q @ e2\<rparr>"
    and e2: "list_all (render_event (input_sequence q)) e2"
    using assms(2) unfolding replays_def by blast
  have "r = p\<lparr>main_sim := (main_sim p)\<lparr>world := w2\<rparr>, trace := trace p @ (e1 @ e2)\<rparr>"
    unfolding r q by simp
  moreover have "list_all (render_event (input_sequence p)) (e1 @ e2)"
    using e1 e2 unfolding q by simp
  ultimately show ?thesis unfolding replays_def by blast
qed

lemma col_in_range: "0 \<le> j \<Longrightarrow> j < int (length M) \<Longrightarrow> col M j = Some (M ! nat j)"
  by (simp add: col_def)

lemma render_tick_ok:
  assumes "render_inv w0 (i, j, p)"
  shows "\<exists>i' j' p'. render_tick E (i, j, p) = Some (i', j', p') \<and> render_inv w0 (i', j', p') \<and> replays p p'"
proof -
  let ?u = "input_sequence p ! nat j"
  let ?w = "sim_step E (sim_setJointTargetPositions E (world (main_sim p)) ?u)"
  have j: "0 \<le> j" "j < int (length (input_sequence p))" and i: "0 \<le> i" "i < int interval"
    and sv: "saved_state (main_sim p) = Some w0"
    using assms by simp_all
  have c: "col (input_sequence p) j = Some ?u" using j by (rule col_in_range)
  have u: "?u \<in> set (input_sequence p)" using j by simp
  let ?p2 = "p\<lparr>main_sim := (main_sim p)\<lparr>world := ?w\<rparr>, trace := trace p @ [SetJointTargetPositions ?u, Step]\<rparr>"
  let ?p3 = "p\<lparr>main_sim := (main_sim p)\<lparr>world := w0\<rparr>, trace := trace p @ [SetJointTargetPositions ?u, Step, RestoreState]\<rparr>"
  have r2: "replays p ?p2" unfolding replays_def using u
    by (intro exI[of _ ?w] exI[of _ "[SetJointTargetPositions ?u, Step]"]) simp
  have r3: "replays p ?p3" unfolding replays_def using u
    by (intro exI[of _ w0] exI[of _ "[SetJointTargetPositions ?u, Step, RestoreState]"]) simp
  consider (wrap) "i + 1 \<ge> int interval" "j + 1 \<ge> int (length (input_sequence p))"
    | (next_col) "i + 1 \<ge> int interval" "j + 1 < int (length (input_sequence p))"
    | (same_col) "i + 1 < int interval"
    by linarith
  then show ?thesis
  proof cases
    case wrap
    have "render_tick E (i, j, p) = Some (0, 0, ?p3)"
      using wrap sv by (simp add: c Let_def emit_def setJointTargetPositions_def step_def restoreState_def)
    moreover have "render_inv w0 (0, 0, ?p3)" using j sv by (auto simp add: interval_def)
    ultimately show ?thesis using r3 by blast
  next
    case next_col
    have "render_tick E (i, j, p) = Some (0, j + 1, ?p2)"
      using next_col by (simp add: c Let_def emit_def setJointTargetPositions_def step_def)
    moreover have "render_inv w0 (0, j + 1, ?p2)" using j sv next_col by (simp add: interval_def)
    ultimately show ?thesis using r2 by blast
  next
    case same_col
    have "render_tick E (i, j, p) = Some (i + 1, j, ?p2)"
      using same_col j by (simp add: c Let_def emit_def setJointTargetPositions_def step_def)
    moreover have "render_inv w0 (i + 1, j, ?p2)" using i j sv same_col by simp
    ultimately show ?thesis using r2 by blast
  qed
qed

lemma render_ticks_ok:
  assumes "render_inv w0 (i, j, p)"
  shows "\<exists>i' j' p'. render_ticks E n (i, j, p) = Some (i', j', p') \<and> render_inv w0 (i', j', p') \<and> replays p p'"
  using assms
proof (induction n arbitrary: i j p)
  case 0
  then show ?case using replays_refl by auto
next
  case (Suc n)
  obtain i1 j1 p1 where t: "render_tick E (i, j, p) = Some (i1, j1, p1)" "render_inv w0 (i1, j1, p1)" "replays p p1"
    using render_tick_ok[OF Suc.prems] by blast
  obtain i2 j2 p2 where r: "render_ticks E n (i1, j1, p1) = Some (i2, j2, p2)" "render_inv w0 (i2, j2, p2)" "replays p1 p2"
    using Suc.IH[OF t(2)] by blast
  have "render_ticks E (Suc n) (i, j, p) = Some (i2, j2, p2)"
    using t(1) r(1) by (simp del: render_tick.simps)
  then show ?case using r(2) replays_trans[OF t(3) r(3)] by blast
qed

lemma render_frames_ok:
  assumes "render_inv w0 (i, j, p)"
  shows "\<exists>i' j' p'. render_frames E ns (i, j, p) = Some (i', j', p') \<and> render_inv w0 (i', j', p') \<and> replays p p'"
  using assms
proof (induction ns arbitrary: i j p)
  case Nil
  then show ?case using replays_refl by auto
next
  case (Cons n ns)
  obtain i1 j1 p1 where t: "render_ticks E n (i, j, p) = Some (i1, j1, p1)" "render_inv w0 (i1, j1, p1)" "replays p p1"
    using render_ticks_ok[OF Cons.prems] by blast
  obtain i2 j2 p2 where r: "render_frames E ns (i1, j1, p1) = Some (i2, j2, p2)" "render_inv w0 (i2, j2, p2)" "replays p1 p2"
    using Cons.IH[OF t(2)] by blast
  have "render_frames E (n # ns) (i, j, p) = Some (i2, j2, p2)"
    using t(1) r(1) by simp
  then show ?case using r(2) replays_trans[OF t(3) r(3)] by blast
qed

lemma render_start:
  assumes "0 < length (input_sequence p)"
  shows "render_inv (world (main_sim p)) (0, 0, emit SaveState (p\<lparr>main_sim := saveState (main_sim p)\<rparr>))"
  using assms by (simp add: saveState_def interval_def)

subsection \<open>Rules, the robot graph and the program\<close>

lemma convert_rules_fold:
  "fold (\<lambda>rule_graph (rules, tr). (rules @ [createRuleFromGraph G rule_graph], tr @ [CreateRuleFromGraph]))
     gs (rs, tr) = (rs @ map (createRuleFromGraph G) gs, tr @ replicate (length gs) CreateRuleFromGraph)"
  by (induction gs arbitrary: rs tr) (simp_all add: replicate_append_same)

lemma convert_rules_eq:
  "convert_rules G gs tr = (map (createRuleFromGraph G) gs, tr @ replicate (length gs) CreateRuleFromGraph)"
  by (simp add: convert_rules_def convert_rules_fold)

lemma rewrite_step_graph:
  "fst (rewrite_step G rules rule_idx (g, tr)) =
     (if unat rule_idx < length rules \<and> findMatches G (rule_lhs G (rules ! unat rule_idx)) g \<noteq> []
      then applyRule G (rules ! unat rule_idx) g (findMatches G (rule_lhs G (rules ! unat rule_idx)) g ! 0)
      else g)"
  by (simp add: Let_def)

lemma rewrite_fold_graph:
  "fst (fold (rewrite_step G rules) rule_sequence (g, tr))
     = fst (fold (rewrite_step G rules) rule_sequence (g, tr'))"
proof (induction rule_sequence arbitrary: g tr tr')
  case Nil
  show ?case by simp
next
  case (Cons rule_idx rule_sequence)
  obtain g1 t1 where s1: "rewrite_step G rules rule_idx (g, tr) = (g1, t1)"
    by (cases "rewrite_step G rules rule_idx (g, tr)")
  obtain g2 t2 where s2: "rewrite_step G rules rule_idx (g, tr') = (g2, t2)"
    by (cases "rewrite_step G rules rule_idx (g, tr')")
  have "g1 = g2"
    using rewrite_step_graph[of G rules rule_idx g tr] rewrite_step_graph[of G rules rule_idx g tr']
    unfolding s1 s2 by simp
  then show ?case
    using Cons.IH[of g1 t1 t2] by (simp add: s1 s2 del: rewrite_step.simps)
qed

lemma rewrite_step_trace:
  assumes "\<And>n. P (FindMatches n)" and "\<And>n. P (ApplyRule n)" and "list_all P tr"
  shows "list_all P (snd (rewrite_step G rules rule_idx (g, tr)))"
  using assms by (simp add: Let_def)

lemma rewrite_fold_trace:
  assumes "\<And>n. P (FindMatches n)" and "\<And>n. P (ApplyRule n)" and "list_all P tr"
  shows "list_all P (snd (fold (rewrite_step G rules) rule_sequence (g, tr)))"
  using assms(3)
proof (induction rule_sequence arbitrary: g tr)
  case Nil
  then show ?case by simp
next
  case (Cons rule_idx rule_sequence)
  obtain g1 t1 where s1: "rewrite_step G rules rule_idx (g, tr) = (g1, t1)"
    by (cases "rewrite_step G rules rule_idx (g, tr)")
  have "list_all P t1"
    using rewrite_step_trace[of P tr G rules rule_idx g, OF assms(1,2) Cons.prems] unfolding s1 by simp
  then show ?case using Cons.IH[of t1 g1] by (simp add: s1 del: rewrite_step.simps)
qed

lemma optimize_frame:
  "robot_graph (optimize E a p) = robot_graph p"
  "dof_count (optimize E a p) = dof_count p"
  "length (input_sequence (optimize E a p)) = length (input_sequence p)"
  by (simp_all add: optimize_def run_episodes_frame)

lemma initialise_sized: "sized (initialise E a g tr)"
  by (simp add: initialise_def sized_def Let_def)

lemma initialise_fields:
  "robot_graph (initialise E a g tr) = g"
  "length (input_sequence (initialise E a g tr)) = 250"
  "input_sequence (initialise E a g tr) = replicate 250 (replicate (dof_count (initialise E a g tr)) 0)"
  "replay_obs (initialise E a g tr) = []"
  "replay_returns (initialise E a g tr) = []"
  "episode_len (initialise E a g tr) = 250"
  "trace (initialise E a g tr) = tr @ [BuildRobot, NewSimulation, NewSimulation]"
  "episode_count (initialise E a g tr) = sint (episodes_flag a)"
  by (simp_all add: initialise_def Let_def)

lemma before_viewer_graph:
  fixes E :: "('a::{zero,plus,times}, 'g, 'w, 'opt, 've, 'gen) collaborators"
  shows "robot_graph (before_viewer G E a) =
     fst (generate_robot_graph G (map (createRuleFromGraph G) (loadGraphs G (graph_file_arg a)))
            (rule_sequence_arg a) ([] :: unit event list))"
proof -
  have "robot_graph (before_viewer G E a) =
     fst (generate_robot_graph G (map (createRuleFromGraph G) (loadGraphs G (graph_file_arg a)))
            (rule_sequence_arg a)
            ([LoadGraphs (graph_file_arg a)] @
               replicate (length (loadGraphs G (graph_file_arg a))) CreateRuleFromGraph :: 'a event list))"
    by (simp add: before_viewer_def convert_rules_eq split_def Let_def optimize_frame initialise_fields)
  then show ?thesis
    unfolding generate_robot_graph_def
    using rewrite_fold_graph[of G "map (createRuleFromGraph G) (loadGraphs G (graph_file_arg a))"
        "rule_sequence_arg a" "seed_graph G"
        "[LoadGraphs (graph_file_arg a)] @ replicate (length (loadGraphs G (graph_file_arg a))) CreateRuleFromGraph
          :: 'a event list" "[] :: unit event list"]
    by simp
qed

lemma before_viewer_cols: "length (input_sequence (before_viewer G E a)) = 250"
  by (simp add: before_viewer_def split_def Let_def optimize_frame initialise_fields)

lemma main_model_eq:
  assumes "loadGraphs G (graph_file_arg a) \<noteq> []"
  shows "main_model G E a =
    (if render_flag a then
       (case render_frames E (frame_steps E) (0, 0, before_viewer G E a) of
          None \<Rightarrow> Out_of_range
        | Some (i, j, p3) \<Rightarrow> Return_0 p3)
     else Return_0 (before_viewer G E a))"
  using assms by (simp add: main_model_def before_viewer_def Let_def split_def)

lemma main_model_returns:
  assumes "loadGraphs G (graph_file_arg a) \<noteq> []"
  shows "\<exists>p. main_model G E a = Return_0 p \<and> replays (before_viewer G E a) p"
proof (cases "render_flag a")
  case False
  then show ?thesis using main_model_eq[OF assms, of E] replays_refl by auto
next
  case True
  let ?p1 = "(let (rules, tr1) = convert_rules G (loadGraphs G (graph_file_arg a)) [LoadGraphs (graph_file_arg a)];
          (g, tr2) = generate_robot_graph G rules (rule_sequence_arg a) tr1
      in optimize E a (initialise E a g tr2))"
  have bv: "before_viewer G E a = emit SaveState (?p1\<lparr>main_sim := saveState (main_sim ?p1)\<rparr>)"
    by (simp add: before_viewer_def Let_def split_def)
  have "0 < length (input_sequence ?p1)"
    using before_viewer_cols[of G E a] unfolding bv by simp
  from render_start[OF this]
  have "render_inv (world (main_sim ?p1)) (0, 0, before_viewer G E a)" unfolding bv .
  from render_frames_ok[OF this, of E "frame_steps E"]
  obtain i j p where "render_frames E (frame_steps E) (0, 0, before_viewer G E a) = Some (i, j, p)"
    "replays (before_viewer G E a) p" by blast
  then show ?thesis using True main_model_eq[OF assms, of E] by simp
qed

lemma main_model_early:
  "loadGraphs G (graph_file_arg a) = [] \<Longrightarrow>
   main_model G E a =
     Return_1 [LoadGraphs (graph_file_arg a), Stderr ''Graph file does not contain any graphs'']"
  by (simp add: main_model_def)

subsection \<open>The order of restoring and bootstrapping\<close>

lemma replay_event_kinds: "replay_event e \<Longrightarrow> \<not> is_RestoreState e \<and> \<not> is_EstimateValue e"
  by (cases e) simp_all

lemma event_index_append:
  assumes "list_all (\<lambda>e. \<not> P e) xs"
  shows "event_index P (xs @ ys) = length xs + event_index P ys"
proof -
  have "takeWhile (\<lambda>e. \<not> P e) (xs @ ys) = xs @ takeWhile (\<lambda>e. \<not> P e) ys"
    using assms by (intro takeWhile_append2) (simp add: list_all_iff)
  then show ?thesis by (simp add: event_index_def)
qed

lemma run_episode_order:
  assumes "list_all (\<lambda>e. \<not> is_RestoreState e \<and> \<not> is_EstimateValue e) (trace p)"
  shows "event_index is_EstimateValue (trace (run_episode E p))
           = Suc (event_index is_RestoreState (trace (run_episode E p))) \<and>
         event_index is_EstimateValue (trace (run_episode E p)) < length (trace (run_episode E p))"
proof -
  obtain mid where tr: "trace (run_episode E p) =
            trace p @ NewOptimizer (fst (mt19937_next E (generator p))) # replicate 10 Update @
            [SaveState] @ mid @
            [GetObservation (episode_len p), RestoreState,
             EstimateValue (obs (run_episode E p) ! episode_len p),
             Train (replay_obs (run_episode E p)) (replay_returns (run_episode E p))]"
     and mid: "list_all replay_event mid"
    using run_episode_trace[of E p] by blast
  let ?pre = "trace p @ NewOptimizer (fst (mt19937_next E (generator p))) # replicate 10 Update @
            [SaveState] @ mid @ [GetObservation (episode_len p)]"
  have m: "list_all (\<lambda>e. \<not> is_RestoreState e \<and> \<not> is_EstimateValue e) mid"
    using mid replay_event_kinds by (auto simp add: list_all_iff)
  have pre: "list_all (\<lambda>e. \<not> is_RestoreState e \<and> \<not> is_EstimateValue e) ?pre"
    using assms m by (auto simp add: list_all_iff)
  have r: "list_all (\<lambda>e. \<not> is_RestoreState e) ?pre" and e: "list_all (\<lambda>e. \<not> is_EstimateValue e) (?pre @ [RestoreState])"
    using pre by (simp_all add: list_all_iff)
  have split1: "trace (run_episode E p) = ?pre @ [RestoreState,
             EstimateValue (obs (run_episode E p) ! episode_len p),
             Train (replay_obs (run_episode E p)) (replay_returns (run_episode E p))]"
    unfolding tr by simp
  have split2: "trace (run_episode E p) = (?pre @ [RestoreState]) @ [
             EstimateValue (obs (run_episode E p) ! episode_len p),
             Train (replay_obs (run_episode E p)) (replay_returns (run_episode E p))]"
    unfolding tr by simp
  have i1: "event_index is_RestoreState (trace (run_episode E p)) = length ?pre"
    by (subst split1, subst event_index_append[OF r]) (simp add: event_index_def)
  have i2: "event_index is_EstimateValue (trace (run_episode E p)) = length ?pre + 1"
    by (subst split2, subst event_index_append[OF e]) (simp add: event_index_def)
  have len: "length (trace (run_episode E p)) = length ?pre + 3"
    by (subst split1) simp
  show ?thesis unfolding i1 i2 len by simp
qed

subsection \<open>Runs that do not optimise\<close>

lemma render_event_zero:
  assumes "render_event M e" and "\<And>u. u \<in> set M \<Longrightarrow> u = replicate d 0"
  shows "zero_targets d e"
  using assms by (cases e) simp_all

lemma before_viewer_idle:
  fixes E :: "('a::{zero,plus,times}, 'g, 'w, 'opt, 've, 'gen) collaborators"
  assumes "\<not> optim_flag a"
  shows "episode_len (before_viewer G E a) = 250"
    and "dof_count (before_viewer G E a) = getRobotDofCount E (make_sim E (robot_graph (before_viewer G E a)))"
    and "input_sequence (before_viewer G E a) = replicate 250 (replicate (dof_count (before_viewer G E a)) 0)"
    and "replay_obs (before_viewer G E a) = []"
    and "replay_returns (before_viewer G E a) = []"
    and "list_all (zero_targets d) (trace (before_viewer G E a))"
proof -
  let ?gt = "generate_robot_graph G (map (createRuleFromGraph G) (loadGraphs G (graph_file_arg a)))
      (rule_sequence_arg a)
      ([LoadGraphs (graph_file_arg a)] @ replicate (length (loadGraphs G (graph_file_arg a))) CreateRuleFromGraph
         :: 'a event list)"
  let ?p0 = "initialise E a (fst ?gt) (snd ?gt)"
  have bv: "before_viewer G E a = emit SaveState (?p0\<lparr>main_sim := saveState (main_sim ?p0)\<rparr>)"
    using assms by (simp add: before_viewer_def convert_rules_eq split_def Let_def optimize_def)
  show "episode_len (before_viewer G E a) = 250"
    and "input_sequence (before_viewer G E a) = replicate 250 (replicate (dof_count (before_viewer G E a)) 0)"
    and "replay_obs (before_viewer G E a) = []"
    and "replay_returns (before_viewer G E a) = []"
    unfolding bv by (simp_all add: initialise_fields)
  show "dof_count (before_viewer G E a) = getRobotDofCount E (make_sim E (robot_graph (before_viewer G E a)))"
    unfolding bv by (simp add: initialise_def Let_def)
  have "list_all (zero_targets d)
          ([LoadGraphs (graph_file_arg a)] @
             replicate (length (loadGraphs G (graph_file_arg a))) CreateRuleFromGraph :: 'a event list)"
    by (simp add: list_all_iff)
  then have "list_all (zero_targets d) (snd ?gt)"
    unfolding generate_robot_graph_def by (intro rewrite_fold_trace) simp_all
  then show "list_all (zero_targets d) (trace (before_viewer G E a))"
    unfolding bv by (simp add: initialise_fields)
qed

subsection \<open>Wrapping around, and the buffer at the end of a run\<close>

lemma render_tick_wrap:
  assumes "render_inv w0 (i, j, q)" and "int interval \<le> i + 1" and "int (length (input_sequence q)) \<le> j + 1"
  shows "\<exists>q'. render_tick E (i, j, q) = Some (0, 0, q') \<and> world (main_sim q') = w0 \<and>
              last (trace q') = RestoreState"
proof -
  have j: "0 \<le> j" "j < int (length (input_sequence q))" and sv: "saved_state (main_sim q) = Some w0"
    using assms(1) by simp_all
  have c: "col (input_sequence q) j = Some (input_sequence q ! nat j)" using j by (rule col_in_range)
  show ?thesis
    using assms(2,3) sv
    by (simp add: c Let_def emit_def setJointTargetPositions_def step_def restoreState_def)
qed

lemma main_model_replay:
  fixes E :: "('a::{zero,plus,times}, 'g, 'w, 'opt, 've, 'gen) collaborators"
  assumes "optim_flag a" and "main_model G E a = Return_0 q"
  shows "length (replay_obs q) = nat (sint (episodes_flag a)) * 250 \<and>
         length (replay_returns q) = nat (sint (episodes_flag a)) * 250"
proof -
  have ne: "loadGraphs G (graph_file_arg a) \<noteq> []"
    using assms(2) main_model_early[of G a E] by auto
  have "replays (before_viewer G E a) q" using main_model_returns[OF ne, of E] assms(2) by auto
  then have q: "replay_obs q = replay_obs (before_viewer G E a)"
    "replay_returns q = replay_returns (before_viewer G E a)"
    unfolding replays_def by auto
  let ?gt = "generate_robot_graph G (map (createRuleFromGraph G) (loadGraphs G (graph_file_arg a)))
      (rule_sequence_arg a)
      ([LoadGraphs (graph_file_arg a)] @ replicate (length (loadGraphs G (graph_file_arg a))) CreateRuleFromGraph
         :: 'a event list)"
  let ?p0 = "initialise E a (fst ?gt) (snd ?gt)"
  let ?p1 = "run_episodes E (nat (sint (episodes_flag a))) ?p0"
  have bv: "before_viewer G E a = emit SaveState (?p1\<lparr>main_sim := saveState (main_sim ?p1)\<rparr>)"
    using assms(1) by (simp add: before_viewer_def convert_rules_eq split_def Let_def optimize_def initialise_fields)
  show ?thesis
    unfolding q bv
    using run_episodes_replay_length[OF initialise_sized, where E1 = E and a1 = a and g1 = "fst ?gt"
        and tr1 = "snd ?gt" and E = E and k = "nat (sint (episodes_flag a))"]
    by (simp add: initialise_fields)
qed

section \<open>The claims\<close>

subsection \<open>Claim C1: the return recursion\<close>

text \<open>
  Claim C1. For every reward sequence and every terminal value the estimator gives for the
  final observation, the returns computed by lines 190 to 193 satisfy
  \<open>returns[episode_len] = estimateValue(final observation)\<close> and, for every \<open>t\<close> below
  \<open>episode_len\<close>, \<open>returns[t] = rewards[t] + discount_factor * returns[t + 1]\<close>, as an
  equation between the very scalars the program computes (no law of arithmetic is used).
  The first half is about lines 190 to 193 started in any state whose containers have the
  sizes of lines 148 to 151, whatever its rewards; the second is about the state a whole
  episode ends in, whose rewards are those of the episode.
\<close>

theorem returns_recursion:
  assumes "sized p"
  shows "(returns (bootstrap_returns E p) ! episode_len p
            = estimateValue E (value_estimator p) (obs p ! episode_len p) \<and>
          (\<forall>t<episode_len p.
             returns (bootstrap_returns E p) ! t
               = rewards p ! t + discount_factor E * returns (bootstrap_returns E p) ! (t + 1))) \<and>
         (returns (run_episode E p) ! episode_len p
            = estimateValue E (value_estimator p) (obs (run_episode E p) ! episode_len p) \<and>
          (\<forall>t<episode_len p.
             returns (run_episode E p) ! t
               = rewards (run_episode E p) ! t + discount_factor E * returns (run_episode E p) ! (t + 1)))"
proof -
  have len: "length (returns p) = episode_len p + 1" using assms by (simp add: sized_def)
  show ?thesis
    using bootstrap_returns_recursion[OF len, where E = E] run_episode_returns[OF assms, where E = E]
    by simp
qed

text \<open>
  Rewards 1, 2, 3, 4, terminal value 10 and discount factor a half: the returns are
  4 + 5 = 9, then 3 + 4.5, then 2 + 3.75, then 1 + 2.875.
\<close>

theorem returns_recursion_witness:
  "returns (bootstrap_returns example_collaborators example_episode) = [31 / 8, 23 / 4, 15 / 2, 9, 10]"
  using returns_recursion[of example_episode example_collaborators]
  by (simp add: bootstrap_returns_def example_episode_def example_collaborators_def Let_def emit_def
       upt_rec numeral_eq_Suc)

subsection \<open>Claim C2: steps that change nothing\<close>

text \<open>
  Claim C2. When a rule index is not below the number of rules, or the left-hand side of its
  rule has no match in the current graph, the step leaves the graph as it is, and the loop
  goes on with the rest of the sequence from that same graph.
\<close>

theorem rewrite_noop:
  assumes "unat rule_idx \<ge> length rules \<or> findMatches G (rule_lhs G (rules ! unat rule_idx)) g = []"
  shows "fst (rewrite_step G rules rule_idx (g, tr)) = g \<and>
         fst (fold (rewrite_step G rules) (rule_idx # rest) (g, tr))
           = fst (fold (rewrite_step G rules) rest (g, tr))"
proof -
  have g: "fst (rewrite_step G rules rule_idx (g, tr)) = g"
    using assms unfolding rewrite_step_graph by auto
  obtain t1 where s: "rewrite_step G rules rule_idx (g, tr) = (g, t1)"
    using g by (cases "rewrite_step G rules rule_idx (g, tr)") simp
  have "fst (fold (rewrite_step G rules) (rule_idx # rest) (g, tr))
           = fst (fold (rewrite_step G rules) rest (g, t1))"
    by (simp add: s del: rewrite_step.simps)
  then show ?thesis using g rewrite_fold_graph[of G rules rest g t1 tr] by simp
qed

text \<open>
  With the three example rules: index 5 is out of range, rule 0 (pattern of five nodes)
  does not match the one-node graph, and after the skipped index 5 rule 1 still applies.
\<close>

theorem rewrite_noop_witness:
  "fst (rewrite_step example_graphs [5, 1, 3] 5 (1, [] :: unit event list)) = 1 \<and>
   fst (rewrite_step example_graphs [5, 1, 3] 0 (1, [] :: unit event list)) = 1 \<and>
   fst (fold (rewrite_step example_graphs [5, 1, 3]) [5, 1] (1, [] :: unit event list)) = 2"
  using rewrite_noop[of "[5, 1, 3]" 5 example_graphs 1 "[] :: unit event list" "[1]"]
    rewrite_noop[of "[5, 1, 3]" 0 example_graphs 1 "[] :: unit event list" "[]"]
  by (simp add: example_graphs_def Let_def)

subsection \<open>Claim C3: the rewrite is deterministic\<close>

text \<open>
  Claim C3. For an index in range whose pattern has a match, the step replaces the graph by
  the rule applied at the first match the matcher returned. The graph library being a
  function of its arguments, the robot graph of a run that reaches the end of \<^verbatim>\<open>main\<close>
  depends on the graph file and the rule sequence only: two runs that agree on these end
  with the same graph, whatever their seeds, flags and other collaborators.
\<close>

theorem rewrite_deterministic:
  fixes E :: "('a::{zero,plus,times}, 'g, 'w, 'opt, 've, 'gen) collaborators"
    and E' :: "('b::{zero,plus,times}, 'g, 'w2, 'opt2, 've2, 'gen2) collaborators"
  shows "(unat rule_idx < length rules \<and> findMatches G (rule_lhs G (rules ! unat rule_idx)) g \<noteq> [] \<longrightarrow>
          fst (rewrite_step G rules rule_idx (g, tr))
            = applyRule G (rules ! unat rule_idx) g (hd (findMatches G (rule_lhs G (rules ! unat rule_idx)) g))) \<and>
         (main_model G E a = Return_0 p \<and> main_model G E' a' = Return_0 p' \<and>
          graph_file_arg a = graph_file_arg a' \<and> rule_sequence_arg a = rule_sequence_arg a' \<longrightarrow>
          robot_graph p = robot_graph p')"
proof (intro conjI impI)
  assume "unat rule_idx < length rules \<and> findMatches G (rule_lhs G (rules ! unat rule_idx)) g \<noteq> []"
  then show "fst (rewrite_step G rules rule_idx (g, tr))
            = applyRule G (rules ! unat rule_idx) g (hd (findMatches G (rule_lhs G (rules ! unat rule_idx)) g))"
    unfolding rewrite_step_graph by (simp add: hd_conv_nth)
next
  assume h: "main_model G E a = Return_0 p \<and> main_model G E' a' = Return_0 p' \<and>
          graph_file_arg a = graph_file_arg a' \<and> rule_sequence_arg a = rule_sequence_arg a'"
  have ne: "loadGraphs G (graph_file_arg a) \<noteq> []"
    using h main_model_early[of G a E] by auto
  have ne': "loadGraphs G (graph_file_arg a') \<noteq> []"
    using h main_model_early[of G a' E'] by auto
  have "replays (before_viewer G E a) p" using main_model_returns[OF ne, of E] h by auto
  then have p: "robot_graph p = robot_graph (before_viewer G E a)"
    unfolding replays_def by auto
  have "replays (before_viewer G E' a') p'" using main_model_returns[OF ne', of E'] h by auto
  then have p': "robot_graph p' = robot_graph (before_viewer G E' a')"
    unfolding replays_def by auto
  show "robot_graph p = robot_graph p'"
    unfolding p p' before_viewer_graph using h by simp
qed

text \<open>
  The example grammar with the sequence 1, 0, 5: rule 1 matches the seed and gives a graph
  of two nodes, rule 0 does not match it, index 5 is skipped. A second run with another seed
  and other flags ends with the same graph.
\<close>

theorem rewrite_deterministic_witness:
  "\<exists>p p'. main_model example_graphs example_collaborators example_args = Return_0 p \<and>
          main_model example_graphs example_collaborators
            (example_args\<lparr>seed_flag := 7, optim_flag := True, render_flag := False\<rparr>) = Return_0 p' \<and>
          robot_graph p = robot_graph p' \<and> robot_graph p = 2 \<and>
          fst (rewrite_step example_graphs [5, 1, 3] 1 (1, [] :: unit event list)) = 2"
proof -
  let ?a' = "example_args\<lparr>seed_flag := 7, optim_flag := True, render_flag := False\<rparr>"
  have ne: "loadGraphs example_graphs (graph_file_arg example_args) \<noteq> []"
    and ne': "loadGraphs example_graphs (graph_file_arg ?a') \<noteq> []"
    by (simp_all add: example_graphs_def example_args_def)
  obtain p where p: "main_model example_graphs example_collaborators example_args = Return_0 p"
    and rp: "replays (before_viewer example_graphs example_collaborators example_args) p"
    using main_model_returns[OF ne, of example_collaborators] by blast
  obtain p' where p': "main_model example_graphs example_collaborators ?a' = Return_0 p'"
    using main_model_returns[OF ne', of example_collaborators] by blast
  note t = rewrite_deterministic[of 1 "[5, 1, 3]" example_graphs 1 "[] :: unit event list"
      example_collaborators example_args p example_collaborators ?a' p']
  have same: "robot_graph p = robot_graph p'"
    using t p p' by simp
  have step: "fst (rewrite_step example_graphs [5, 1, 3] 1 (1, [] :: unit event list)) = 2"
    using t by (simp add: example_graphs_def)
  have "robot_graph p = robot_graph (before_viewer example_graphs example_collaborators example_args)"
    using rp unfolding replays_def by auto
  also have "\<dots> = 2"
    unfolding before_viewer_graph
    by (simp add: generate_robot_graph_def example_graphs_def example_args_def Let_def)
  finally show ?thesis using p p' same step by blast
qed

subsection \<open>Claim C4: saving and restoring the main simulation\<close>

text \<open>
  Claim C4 says the main simulation is restored after the terminal bootstrapping. The program
  restores it at line 187, before the value estimator is asked for the terminal value at
  line 190: in the first episode of the example run the \<open>RestoreState\<close> event comes strictly
  before the \<open>EstimateValue\<close> event, which does occur.
\<close>

theorem restore_precedes_bootstrap:
  "event_index is_RestoreState
     (trace (run_episode example_collaborators (initialise example_collaborators example_args 2 [])))
   < event_index is_EstimateValue
     (trace (run_episode example_collaborators (initialise example_collaborators example_args 2 []))) \<and>
   event_index is_EstimateValue
     (trace (run_episode example_collaborators (initialise example_collaborators example_args 2 [])))
   < length (trace (run_episode example_collaborators (initialise example_collaborators example_args 2 [])))"
proof -
  have "list_all (\<lambda>e. \<not> is_RestoreState e \<and> \<not> is_EstimateValue e)
          (trace (initialise example_collaborators example_args 2 []))"
    by (simp add: initialise_fields)
  from run_episode_order[OF this, of example_collaborators] show ?thesis by simp
qed

text \<open>
  Claim C4, as the program has it. In every episode, after the new optimizer's ten warm-up
  updates, the main simulation is saved; then come the events of the lockstep replay and
  nothing else; then the final observation is taken, the simulation is restored, and only
  then the terminal value is estimated and the estimator trained. An episode leaves the main
  simulation in the world it started from, with that world as its checkpoint, so every
  episode of a run starts from the same world.
\<close>

theorem checkpoint_discipline:
  "(\<exists>mid. trace (run_episode E p) =
            trace p @ NewOptimizer (fst (mt19937_next E (generator p))) # replicate 10 Update @
            [SaveState] @ mid @
            [GetObservation (episode_len p), RestoreState,
             EstimateValue (obs (run_episode E p) ! episode_len p),
             Train (replay_obs (run_episode E p)) (replay_returns (run_episode E p))] \<and>
          list_all replay_event mid) \<and>
   main_sim (run_episode E p) = \<lparr>world = world (main_sim p), saved_state = Some (world (main_sim p))\<rparr> \<and>
   world (main_sim (run_episodes E k p)) = world (main_sim p)"
  using run_episode_trace[of E p] by (simp add: run_episode_frame run_episodes_frame)

text \<open>
  Three episodes of the example run: each physics step moves the world, and the world is
  back at 0 after them.
\<close>

theorem checkpoint_discipline_witness:
  "world (main_sim (run_episodes example_collaborators 3 (initialise example_collaborators example_args 2 []))) = 0"
  using checkpoint_discipline[of example_collaborators "initialise example_collaborators example_args 2 []" 3]
  by (simp add: initialise_def example_collaborators_def)

subsection \<open>Claim C5: the replay buffer grows\<close>

text \<open>
  Claim C5. From a state whose containers have the sizes of lines 148 to 151 and whose replay
  buffer is empty, \<open>k\<close> episodes leave exactly \<open>k * episode_len\<close> observations and as many
  returns in the buffer, and the next episode keeps them as the first \<open>k * episode_len\<close>
  entries. A run with the optimize flag set that reaches the end of \<^verbatim>\<open>main\<close> ends with
  \<open>episode_count * 250\<close> pairs, \<open>episode_count\<close> being the \<^verbatim>\<open>int\<close> read from the unsigned
  flag (no episode when it is not positive).
\<close>

theorem replay_buffer_growth:
  fixes E :: "('a::{zero,plus,times}, 'g, 'w, 'opt, 've, 'gen) collaborators"
  assumes "sized p" and "replay_obs p = []" and "replay_returns p = []"
  shows "length (replay_obs (run_episodes E k p)) = k * episode_len p \<and>
         length (replay_returns (run_episodes E k p)) = k * episode_len p \<and>
         take (k * episode_len p) (replay_obs (run_episodes E (Suc k) p)) = replay_obs (run_episodes E k p) \<and>
         take (k * episode_len p) (replay_returns (run_episodes E (Suc k) p)) = replay_returns (run_episodes E k p) \<and>
         (optim_flag a \<and> main_model G E a = Return_0 q \<longrightarrow>
            length (replay_obs q) = nat (sint (episodes_flag a)) * 250 \<and>
            length (replay_returns q) = nat (sint (episodes_flag a)) * 250)"
proof -
  note len = run_episodes_replay_length[OF assms(1), where E = E and k = k]
  have "replay_obs (run_episodes E (Suc k) p) = replay_obs (run_episodes E k p) @
          take (episode_len p) (obs (run_episodes E (Suc k) p))"
    using run_episode_data(4)[of E "run_episodes E k p"] by (simp add: run_episodes_Suc run_episodes_frame)
  moreover have "replay_returns (run_episodes E (Suc k) p) = replay_returns (run_episodes E k p) @
          take (episode_len p) (returns (run_episodes E (Suc k) p))"
    using run_episode_data(5)[of E "run_episodes E k p"] by (simp add: run_episodes_Suc run_episodes_frame)
  ultimately show ?thesis using len assms(2,3) main_model_replay[of a G E q] by simp
qed

text \<open>
  The example run: 500 pairs after two episodes, still the first 500 after the third.
\<close>

theorem replay_buffer_growth_witness:
  "length (replay_obs (run_episodes example_collaborators 2 (initialise example_collaborators example_args 2 []))) = 500 \<and>
   length (replay_returns (run_episodes example_collaborators 2 (initialise example_collaborators example_args 2 []))) = 500 \<and>
   take 500 (replay_obs (run_episodes example_collaborators 3 (initialise example_collaborators example_args 2 [])))
     = replay_obs (run_episodes example_collaborators 2 (initialise example_collaborators example_args 2 []))"
proof -
  let ?p0 = "initialise example_collaborators example_args 2 []"
  have h: "sized ?p0" "replay_obs ?p0 = []" "replay_returns ?p0 = []"
    by (simp_all add: initialise_sized initialise_fields)
  have three: "Suc 2 = 3" by simp
  show ?thesis
    using replay_buffer_growth[OF h, where E = example_collaborators and k = 2 and a = example_args
        and G = example_graphs and q = ?p0]
    unfolding three by (simp add: initialise_fields example_args_def)
qed

subsection \<open>Claim C6: training on the whole buffer\<close>

text \<open>
  Claim C6. The last thing an episode does is train the value estimator, and what it passes
  is the whole replay buffer: the buffer from before the episode followed by the episode's
  \<open>episode_len\<close> observations and returns. From an empty buffer, the training that ends
  episode \<open>k + 1\<close> is given \<open>(k + 1) * episode_len\<close> pairs.
\<close>

theorem retrain_on_whole_buffer:
  "value_estimator (run_episode E p)
     = train E (value_estimator p) (replay_obs (run_episode E p)) (replay_returns (run_episode E p)) \<and>
   last (trace (run_episode E p)) = Train (replay_obs (run_episode E p)) (replay_returns (run_episode E p)) \<and>
   replay_obs (run_episode E p) = replay_obs p @ take (episode_len p) (obs (run_episode E p)) \<and>
   replay_returns (run_episode E p) = replay_returns p @ take (episode_len p) (returns (run_episode E p)) \<and>
   (sized p \<and> replay_obs p = [] \<and> replay_returns p = [] \<longrightarrow>
      last (trace (run_episodes E (Suc k) p))
        = Train (replay_obs (run_episodes E (Suc k) p)) (replay_returns (run_episodes E (Suc k) p)) \<and>
      length (replay_obs (run_episodes E (Suc k) p)) = Suc k * episode_len p \<and>
      length (replay_returns (run_episodes E (Suc k) p)) = Suc k * episode_len p)"
proof -
  have last_ev: "last (trace (run_episode E q)) = Train (replay_obs (run_episode E q)) (replay_returns (run_episode E q))"
    for q
    using run_episode_trace[of E q] by auto
  have "sized p \<Longrightarrow> replay_obs p = [] \<Longrightarrow> replay_returns p = [] \<Longrightarrow>
      length (replay_obs (run_episodes E (Suc k) p)) = Suc k * episode_len p \<and>
      length (replay_returns (run_episodes E (Suc k) p)) = Suc k * episode_len p"
    using run_episodes_replay_length[of p E "Suc k"] by simp
  then show ?thesis
    using last_ev[of p] last_ev[of "run_episodes E k p"]
    by (simp add: run_episode_data(4,5,6)[symmetric] run_episodes_Suc)
qed

text \<open>
  The example run: the second episode trains on 500 pairs.
\<close>

theorem retrain_on_whole_buffer_witness:
  "last (trace (run_episodes example_collaborators 2 (initialise example_collaborators example_args 2 [])))
     = Train (replay_obs (run_episodes example_collaborators 2 (initialise example_collaborators example_args 2 [])))
         (replay_returns (run_episodes example_collaborators 2 (initialise example_collaborators example_args 2 []))) \<and>
   length (replay_obs (run_episodes example_collaborators 2 (initialise example_collaborators example_args 2 []))) = 500"
proof -
  let ?p0 = "initialise example_collaborators example_args 2 []"
  have h: "sized ?p0 \<and> replay_obs ?p0 = [] \<and> replay_returns ?p0 = []"
    by (simp add: initialise_sized initialise_fields)
  have two: "Suc 1 = 2" by simp
  have "last (trace (run_episodes example_collaborators (Suc 1) ?p0))
        = Train (replay_obs (run_episodes example_collaborators (Suc 1) ?p0))
            (replay_returns (run_episodes example_collaborators (Suc 1) ?p0)) \<and>
      length (replay_obs (run_episodes example_collaborators (Suc 1) ?p0)) = Suc 1 * episode_len ?p0"
    using retrain_on_whole_buffer[of example_collaborators ?p0 1] h by blast
  then show ?thesis unfolding two by (simp add: initialise_fields)
qed

subsection \<open>Claim C7: one control step\<close>

text \<open>
  Claim C7. Control step \<open>j\<close> of an episode: the optimizer is updated and the first column of
  its plan becomes column \<open>j\<close> of the control plan; the optimizer is then advanced by one;
  observation \<open>j\<close> is taken from the main simulation as it is before the action is applied;
  the main simulation then makes exactly \<open>interval\<close> physics steps, the joint targets set to
  the committed column before each, and reward \<open>j\<close> is zero plus the objective after each of
  these steps, added in order. The trace has these events in this order.
\<close>

theorem control_step_contract:
  assumes "sized p" and "j < episode_len p"
  shows "fst (control_step E j (optimizer, p)) = advance E (update E optimizer) 1 \<and>
         input_sequence (snd (control_step E j (optimizer, p))) ! j
           = opt_input_sequence E (update E optimizer) ! 0 \<and>
         obs (snd (control_step E j (optimizer, p))) ! j
           = getObservation E (value_estimator p) (world (main_sim p)) \<and>
         rewards (snd (control_step E j (optimizer, p))) ! j
           = foldl (+) 0 (map (objective_fn E)
               (held_steps E (opt_input_sequence E (update E optimizer) ! 0) interval (world (main_sim p)))) \<and>
         length (held_steps E (opt_input_sequence E (update E optimizer) ! 0) interval (world (main_sim p)))
           = interval \<and>
         world (main_sim (snd (control_step E j (optimizer, p))))
           = last (world (main_sim p) #
               held_steps E (opt_input_sequence E (update E optimizer) ! 0) interval (world (main_sim p))) \<and>
         trace (snd (control_step E j (optimizer, p)))
           = trace p @ [Update, Advance 1, GetObservation j] @
             concat (replicate interval
               [SetJointTargetPositions (opt_input_sequence E (update E optimizer) ! 0), Step, Objective])"
proof -
  have j: "j < length (rewards p)" "j < length (input_sequence p)" "j < length (obs p)"
    using assms by (simp_all add: sized_def)
  show ?thesis
    unfolding control_step_eq[OF j(1,2)] using j by (simp add: held_steps_length)
qed

text \<open>
  Step 1 of the example episode: the plan's first column is (1, 0), the observation is the
  world 0, the four steps lead to the worlds 1, 2, 3, 4 and the reward is their sum.
\<close>

theorem control_step_contract_witness:
  "fst (control_step example_collaborators 1 (0, example_episode)) = 1 \<and>
   input_sequence (snd (control_step example_collaborators 1 (0, example_episode))) ! 1 = [1, 0] \<and>
   obs (snd (control_step example_collaborators 1 (0, example_episode))) ! 1 = [0] \<and>
   rewards (snd (control_step example_collaborators 1 (0, example_episode))) ! 1 = 10 \<and>
   world (main_sim (snd (control_step example_collaborators 1 (0, example_episode)))) = 4 \<and>
   trace (snd (control_step example_collaborators 1 (0, example_episode))) =
     [Update, Advance 1, GetObservation 1,
      SetJointTargetPositions [1, 0], Step, Objective, SetJointTargetPositions [1, 0], Step, Objective,
      SetJointTargetPositions [1, 0], Step, Objective, SetJointTargetPositions [1, 0], Step, Objective]"
proof -
  have h: "sized example_episode" "1 < episode_len example_episode"
    by (simp_all add: sized_def example_episode_def)
  have four: "interval = Suc (Suc (Suc (Suc 0)))" by (simp add: interval_def)
  show ?thesis
    using control_step_contract[OF h, of example_collaborators 0]
    unfolding four
    by (simp add: example_collaborators_def example_episode_def Let_def del: control_step.simps)
qed

subsection \<open>Claim C8: an empty graph file\<close>

text \<open>
  Claim C8. When the graph file holds no graph, \<^verbatim>\<open>main\<close> returns 1 after two events: the
  file was loaded and the error was reported. No rule was converted, no match was searched,
  no robot or simulation was built.
\<close>

theorem empty_graph_file:
  assumes "loadGraphs G (graph_file_arg a) = []"
  shows "main_model G E a =
           Return_1 [LoadGraphs (graph_file_arg a), Stderr ''Graph file does not contain any graphs''] \<and>
         exit_code (main_model G E a) = Some 1"
  using assms by (simp add: main_model_def)

text \<open>
  The example library knows one graph file; any other name gives no graphs.
\<close>

theorem empty_graph_file_witness:
  "main_model example_graphs example_collaborators (example_args\<lparr>graph_file_arg := ''none.dot''\<rparr>) =
     Return_1 [LoadGraphs ''none.dot'', Stderr ''Graph file does not contain any graphs''] \<and>
   exit_code (main_model example_graphs example_collaborators (example_args\<lparr>graph_file_arg := ''none.dot''\<rparr>))
     = Some 1"
  using empty_graph_file[of example_graphs "example_args\<lparr>graph_file_arg := ''none.dot''\<rparr>" example_collaborators]
  by (simp add: example_graphs_def example_args_def)

subsection \<open>Claim C9: without the optimize flag\<close>

text \<open>
  Claim C9. Without the optimize flag, and with a graph file that holds a graph, the run
  reaches the end of \<^verbatim>\<open>main\<close> with the control plan still the zero matrix of \<open>dof_count\<close>
  rows and \<open>episode_len = 250\<close> columns and with an empty replay buffer, and every joint
  target the run has sent, in the viewer loop or anywhere, is the zero vector.
\<close>

theorem idle_plan_without_optimize:
  assumes "\<not> optim_flag a" and "loadGraphs G (graph_file_arg a) \<noteq> []"
  shows "\<exists>p. main_model G E a = Return_0 p \<and>
             episode_len p = 250 \<and>
             dof_count p = getRobotDofCount E (make_sim E (robot_graph p)) \<and>
             input_sequence p = replicate (episode_len p) (replicate (dof_count p) 0) \<and>
             replay_obs p = [] \<and> replay_returns p = [] \<and>
             list_all (zero_targets (dof_count p)) (trace p)"
proof -
  let ?b = "before_viewer G E a"
  obtain p where m: "main_model G E a = Return_0 p" and r: "replays ?b p"
    using main_model_returns[OF assms(2), of E] by blast
  obtain w ext where p: "p = ?b\<lparr>main_sim := (main_sim ?b)\<lparr>world := w\<rparr>, trace := trace ?b @ ext\<rparr>"
    and ext: "list_all (render_event (input_sequence ?b)) ext"
    using r unfolding replays_def by blast
  note idle = before_viewer_idle[OF assms(1), where G = G and E = E]
  have "zero_targets (dof_count ?b) e" if "e \<in> set ext" for e
  proof (rule render_event_zero)
    show "render_event (input_sequence ?b) e" using ext that by (simp add: list_all_iff)
    show "u = replicate (dof_count ?b) 0" if "u \<in> set (input_sequence ?b)" for u
      using that unfolding idle(3) by simp
  qed
  then have "list_all (zero_targets (dof_count ?b)) ext" by (simp add: list_all_iff)
  then have "list_all (zero_targets (dof_count ?b)) (trace p)"
    unfolding p using idle(6)[where d = "dof_count ?b"] by simp
  moreover have "episode_len p = 250" "replay_obs p = []" "replay_returns p = []"
    "dof_count p = dof_count ?b" "robot_graph p = robot_graph ?b" "input_sequence p = input_sequence ?b"
    unfolding p by (simp_all add: idle)
  ultimately show ?thesis using m idle(2,3) by simp
qed

text \<open>
  The example run has two degrees of freedom, renders, and does not optimise.
\<close>

theorem idle_plan_without_optimize_witness:
  "\<exists>p. main_model example_graphs example_collaborators example_args = Return_0 p \<and>
       input_sequence p = replicate 250 (replicate 2 0) \<and> replay_obs p = [] \<and> replay_returns p = [] \<and>
       list_all (zero_targets 2) (trace p)"
  using idle_plan_without_optimize[of example_args example_graphs example_collaborators]
  by (auto simp add: example_args_def example_graphs_def example_collaborators_def)

subsection \<open>Claim C10: the viewer reads the plan in bounds\<close>

text \<open>
  Claim C10. No run reads a column outside the control plan. The viewer loop starts in its
  invariant whenever the plan has a column (in \<^verbatim>\<open>main\<close> it has 250), and every pass of
  the inner loop, hence every number of passes in every number of frames, reads its column
  in bounds and keeps the invariant: \<open>0 \<le> j < input_sequence.cols()\<close>,
  \<open>0 \<le> i < interval\<close>, the checkpoint untouched, and the simulation in the saved world
  whenever both counters are zero. A pass that takes the column index to the number of
  columns resets both counters and restores the simulation to the saved world.
\<close>

theorem viewer_reads_in_bounds:
  "main_model G E a \<noteq> Out_of_range \<and>
   (0 < length (input_sequence p) \<longrightarrow>
      render_inv (world (main_sim p)) (0, 0, emit SaveState (p\<lparr>main_sim := saveState (main_sim p)\<rparr>))) \<and>
   (render_inv w0 s \<longrightarrow>
      (\<exists>s'. render_tick E s = Some s' \<and> render_inv w0 s') \<and>
      (\<exists>s'. render_ticks E n s = Some s' \<and> render_inv w0 s') \<and>
      (\<exists>s'. render_frames E ns s = Some s' \<and> render_inv w0 s')) \<and>
   (render_inv w0 (i, j, q) \<and> int interval \<le> i + 1 \<and> int (length (input_sequence q)) \<le> j + 1 \<longrightarrow>
      (\<exists>q'. render_tick E (i, j, q) = Some (0, 0, q') \<and> world (main_sim q') = w0 \<and>
            last (trace q') = RestoreState))"
proof (intro conjI impI)
  show "main_model G E a \<noteq> Out_of_range"
  proof (cases "loadGraphs G (graph_file_arg a) = []")
    case True
    then show ?thesis by (simp add: main_model_early)
  next
    case False
    then show ?thesis using main_model_returns[OF False, of E] by auto
  qed
next
  assume "0 < length (input_sequence p)"
  then show "render_inv (world (main_sim p)) (0, 0, emit SaveState (p\<lparr>main_sim := saveState (main_sim p)\<rparr>))"
    by (rule render_start)
next
  assume inv: "render_inv w0 s"
  obtain i' j' q' where s: "s = (i', j', q')" by (cases s)
  show "\<exists>s'. render_tick E s = Some s' \<and> render_inv w0 s'"
    using render_tick_ok[OF inv[unfolded s], of E] unfolding s by blast
  show "\<exists>s'. render_ticks E n s = Some s' \<and> render_inv w0 s'"
    using render_ticks_ok[OF inv[unfolded s], of E n] unfolding s by blast
  show "\<exists>s'. render_frames E ns s = Some s' \<and> render_inv w0 s'"
    using render_frames_ok[OF inv[unfolded s], of E ns] unfolding s by blast
next
  assume "render_inv w0 (i, j, q) \<and> int interval \<le> i + 1 \<and> int (length (input_sequence q)) \<le> j + 1"
  then show "\<exists>q'. render_tick E (i, j, q) = Some (0, 0, q') \<and> world (main_sim q') = w0 \<and>
            last (trace q') = RestoreState"
    using render_tick_wrap[of w0 i j q E] by blast
qed

text \<open>
  Five passes over the example episode's plan of four columns.
\<close>

theorem viewer_reads_in_bounds_witness:
  "main_model example_graphs example_collaborators example_args \<noteq> Out_of_range \<and>
   (\<exists>i j q. render_frames example_collaborators [3, 2]
        (0, 0, emit SaveState (example_episode\<lparr>main_sim := saveState (main_sim example_episode)\<rparr>))
        = Some (i, j, q) \<and> 0 \<le> j \<and> j < int (length (input_sequence q)))"
proof -
  let ?s = "(0, 0, emit SaveState (example_episode\<lparr>main_sim := saveState (main_sim example_episode)\<rparr>))"
  note t = viewer_reads_in_bounds[where G = example_graphs and E = example_collaborators
      and a = example_args and p = example_episode and ?w0.0 = 0 and s = ?s and ns = "[3, 2]"]
  have "0 < length (input_sequence example_episode)" and "world (main_sim example_episode) = 0"
    by (simp_all add: example_episode_def)
  then have start: "render_inv 0 ?s"
    using t by simp
  then obtain s' where s': "render_frames example_collaborators [3, 2] ?s = Some s'" "render_inv 0 s'"
    using t by blast
  obtain i j q where "s' = (i, j, q)" by (cases s')
  then have "render_frames example_collaborators [3, 2] ?s = Some (i, j, q) \<and> 0 \<le> j \<and>
      j < int (length (input_sequence q))"
    using s' by simp
  then show ?thesis using t by blast
qed

end
